theory Spec2Isabelle
  imports Complex_Main "HOL-Library.Word" "HOL-Library.AList" "HOL-Library.Sublist"
    "HOL-Library.Code_Target_Nat"
begin

section \<open>JavaScript values of the RPC surface\<close>

text \<open>
  The agent (\<^verbatim>\<open>src/agent.js\<close>) receives JSON values from the host and answers with
  JSON values. The values that occur in the handlers modelled here are \<^verbatim>\<open>undefined\<close>,
  \<^verbatim>\<open>null\<close>, booleans, integral numbers, strings and arrays. Non-integral numbers are
  not part of \<open>jsval\<close>; the typed memory values of the scanner have a type of their own.
\<close>

datatype jsval =
    JUndefined
  | JNull
  | JBool bool
  | JNum int
  | JStr string
  | JArr "jsval list"

text \<open>Digits: \<^verbatim>\<open>0-9\<close> are the characters 48 to 57, \<^verbatim>\<open>a-f\<close> are 97 to 102.\<close>

definition digit_char :: "nat \<Rightarrow> char" where
  "digit_char d = (if d < 10 then char_of (48 + d) else char_of (87 + d))"

definition digit_val :: "char \<Rightarrow> nat option" where
  "digit_val c =
     (let n = (of_char c :: nat) in
      if 48 \<le> n \<and> n < 58 then Some (n - 48)
      else if 97 \<le> n \<and> n < 103 then Some (n - 87)
      else if 65 \<le> n \<and> n < 71 then Some (n - 55)
      else None)"

text \<open>\<^verbatim>\<open>Number.prototype.toString()\<close> of a non-negative integer, in decimal.\<close>

function show_dec :: "nat \<Rightarrow> string" where
  "show_dec n = (if n < 10 then [digit_char n] else show_dec (n div 10) @ [digit_char (n mod 10)])"
  by pat_completeness auto
termination
  by (relation "measure id") auto

text \<open>The hexadecimal digits of \<^verbatim>\<open>NativePointer.prototype.toString()\<close>, after the \<^verbatim>\<open>0x\<close>.\<close>

function show_hex :: "nat \<Rightarrow> string" where
  "show_hex n = (if n < 16 then [digit_char n] else show_hex (n div 16) @ [digit_char (n mod 16)])"
  by pat_completeness auto
termination
  by (relation "measure id") auto

declare show_dec.simps [simp del] show_hex.simps [simp del]

definition ptr_toString :: "nat \<Rightarrow> string" where
  "ptr_toString p = ''0x'' @ show_hex p"

text \<open>Reading a numeral in base \<open>b\<close>: \<open>None\<close> when a character is not a digit of the base.\<close>

fun read_digits :: "nat \<Rightarrow> nat \<Rightarrow> string \<Rightarrow> nat option" where
  "read_digits b acc [] = Some acc"
| "read_digits b acc (c # cs) =
     (case digit_val c of
        None \<Rightarrow> None
      | Some d \<Rightarrow> if d < b then read_digits b (b * acc + d) cs else None)"

fun join_comma :: "string list \<Rightarrow> string" where
  "join_comma [] = []"
| "join_comma [s] = s"
| "join_comma (s # t # ss) = s @ '','' @ join_comma (t # ss)"

text \<open>
  \<^verbatim>\<open>String(v)\<close>. An array is joined with commas, \<^verbatim>\<open>null\<close> and \<^verbatim>\<open>undefined\<close>
  elements giving the empty string.
\<close>

fun js_String :: "jsval \<Rightarrow> string" where
  "js_String JUndefined = ''undefined''"
| "js_String JNull = ''null''"
| "js_String (JBool b) = (if b then ''true'' else ''false'')"
| "js_String (JNum n) = (if n < 0 then ''-'' @ show_dec (nat (- n)) else show_dec (nat n))"
| "js_String (JStr s) = s"
| "js_String (JArr xs) =
     join_comma (map (\<lambda>x. if x = JUndefined \<or> x = JNull then [] else js_String x) xs)"

text \<open>\<^verbatim>\<open>toLowerCase()\<close> on the ASCII letters; other characters are left as they are.\<close>

definition lower_char :: "char \<Rightarrow> char" where
  "lower_char c =
     (let n = (of_char c :: nat) in if 65 \<le> n \<and> n \<le> 90 then char_of (n + 32) else c)"

definition toLowerCase :: "string \<Rightarrow> string" where
  "toLowerCase s = map lower_char s"

text \<open>\<^verbatim>\<open>s.includes(t)\<close>: \<open>t\<close> occurs in \<open>s\<close> as a contiguous run.\<close>

fun js_includes :: "string \<Rightarrow> string \<Rightarrow> bool" where
  "js_includes [] t = (t = [])"
| "js_includes (c # cs) t = (prefix t (c # cs) \<or> js_includes cs t)"

text \<open>JavaScript truthiness, as used by \<^verbatim>\<open>||\<close> and \<^verbatim>\<open>!\<close>.\<close>

fun truthy :: "jsval \<Rightarrow> bool" where
  "truthy JUndefined = False"
| "truthy JNull = False"
| "truthy (JBool b) = b"
| "truthy (JNum n) = (n \<noteq> 0)"
| "truthy (JStr s) = (s \<noteq> [])"
| "truthy (JArr xs) = True"

text \<open>
  The coercions of the JavaScript runtime that the agent relies on and that are not
  written in the repository are parameters of the model: loose equality \<^verbatim>\<open>==\<close>,
  \<^verbatim>\<open>Number(v)\<close> (\<open>None\<close> is \<^verbatim>\<open>NaN\<close>), and the decoding of IEEE floats, which the
  scanner section uses.
\<close>

record js_runtime =
  js_loose_eq :: "jsval \<Rightarrow> jsval \<Rightarrow> bool"
  js_Number :: "jsval \<Rightarrow> real option"

section \<open>Filter expressions: \<^verbatim>\<open>filtered\<close>\<close>

text \<open>String order of \<^verbatim>\<open><\<close> on strings: lexicographic on the character codes.\<close>

definition str_less :: "string \<Rightarrow> string \<Rightarrow> bool" where
  "str_less s t = lexordp (\<lambda>c d. (of_char c :: nat) < of_char d) s t"

text \<open>
  The four relational operators share one shape: numbers are compared as numbers, two
  values that both convert to a number are compared as numbers, anything else as strings.
\<close>

definition rel_op ::
  "js_runtime \<Rightarrow> (real \<Rightarrow> real \<Rightarrow> bool) \<Rightarrow> (string \<Rightarrow> string \<Rightarrow> bool) \<Rightarrow> jsval \<Rightarrow> jsval \<Rightarrow> bool" where
  "rel_op rt num_cmp str_cmp a b =
     (case (a, b) of
        (JNum x, JNum y) \<Rightarrow> num_cmp (of_int x) (of_int y)
      | _ \<Rightarrow>
         (case (js_Number rt a, js_Number rt b) of
            (Some numA, Some numB) \<Rightarrow> num_cmp numA numB
          | _ \<Rightarrow> str_cmp (js_String a) (js_String b)))"

definition operators :: "js_runtime \<Rightarrow> string \<Rightarrow> (jsval \<Rightarrow> jsval \<Rightarrow> bool) option" where
  "operators rt op =
     (if op = ''='' then Some (\<lambda>a b. js_loose_eq rt a b)
      else if op = ''!='' then Some (\<lambda>a b. \<not> js_loose_eq rt a b)
      else if op = ''<'' then Some (rel_op rt (<) str_less)
      else if op = ''>'' then Some (rel_op rt (>) (\<lambda>s t. str_less t s))
      else if op = ''<='' then Some (rel_op rt (\<le>) (\<lambda>s t. \<not> str_less t s))
      else if op = ''>='' then Some (rel_op rt (\<ge>) (\<lambda>s t. \<not> str_less s t))
      else if op = '':'' then
        Some (\<lambda>a b. js_includes (toLowerCase (js_String a)) (toLowerCase (js_String b)))
      else if op = ''!:'' then
        Some (\<lambda>a b. \<not> js_includes (toLowerCase (js_String a)) (toLowerCase (js_String b)))
      else None)"

text \<open>
  An operator the table does not have makes a tuple pass every item. (Operator names
  that are members of \<^verbatim>\<open>Object.prototype\<close>, \<^verbatim>\<open>toString\<close> for example, are outside the
  model.) The items of the filtered list are objects. \<open>field item key\<close> is the property read
  \<^verbatim>\<open>item[key]\<close> (\<open>JUndefined\<close> for a property the object does not have); the type
  \<open>'a\<close> of items stands for object references, so equality on it is reference identity,
  which is what the \<^verbatim>\<open>Set\<close> of results compares.
\<close>

definition evaluate ::
  "js_runtime \<Rightarrow> ('a \<Rightarrow> string \<Rightarrow> jsval) \<Rightarrow> 'a \<Rightarrow> jsval \<Rightarrow> bool" where
  "evaluate rt field item condition =
     (case condition of
        JArr (key # op # val # rest) \<Rightarrow>
          (case operators rt (js_String op) of
             Some operator \<Rightarrow> operator (field item (js_String key)) val
           | None \<Rightarrow> True)
      | _ \<Rightarrow> True)"

text \<open>\<^verbatim>\<open>xs.forEach(r => finalResults.add(r))\<close> on a \<^verbatim>\<open>Set\<close> kept in insertion order.\<close>

fun set_add_all :: "'a list \<Rightarrow> 'a list \<Rightarrow> 'a list" where
  "set_add_all fin [] = fin"
| "set_add_all fin (r # rs) = set_add_all (if r \<in> set fin then fin else fin @ [r]) rs"

fun is_tuple :: "jsval \<Rightarrow> bool" where
  "is_tuple (JArr (a # b # c # rest)) = True"
| "is_tuple _ = False"

text \<open>The loop over the filter; it returns \<^verbatim>\<open>currentAndBlock\<close> and \<^verbatim>\<open>finalResults\<close>.\<close>

fun filter_loop ::
  "js_runtime \<Rightarrow> ('a \<Rightarrow> string \<Rightarrow> jsval) \<Rightarrow> 'a list \<Rightarrow> jsval list \<Rightarrow> 'a list \<Rightarrow> 'a list
     \<Rightarrow> 'a list \<times> 'a list" where
  "filter_loop rt field arr [] cur fin = (cur, fin)"
| "filter_loop rt field arr (item # rest) cur fin =
     (if item = JStr ''and'' then filter_loop rt field arr rest cur fin
      else if item = JStr ''or'' then filter_loop rt field arr rest arr (set_add_all fin cur)
      else if is_tuple item then
        filter_loop rt field arr rest (filter (\<lambda>v. evaluate rt field v item) cur) fin
      else filter_loop rt field arr rest cur fin)"

definition filtered ::
  "js_runtime \<Rightarrow> ('a \<Rightarrow> string \<Rightarrow> jsval) \<Rightarrow> 'a list \<Rightarrow> jsval \<Rightarrow> 'a list" where
  "filtered rt field arr flt =
     (case flt of
        JArr (f # fs) \<Rightarrow>
          (case filter_loop rt field arr (f # fs) arr [] of
             (cur, fin) \<Rightarrow> set_add_all fin cur)
      | _ \<Rightarrow> arr)"

section \<open>Addresses and the address constructor\<close>

text \<open>
  An address of the target process is a natural number below \<open>2 ^ 64\<close> (a 64-bit
  target). \<^verbatim>\<open>NativePointer.add\<close> wraps around at the pointer width.
\<close>

definition ptr_add :: "nat \<Rightarrow> nat \<Rightarrow> nat" where
  "ptr_add p n = (p + n) mod 2 ^ 64"

text \<open>
  What a call into the instrumentation toolkit (DIT) can throw, and the \<^verbatim>\<open>e.message\<close>
  of each exception. \<open>TypeError\<close> is the JavaScript runtime's own.
\<close>

datatype exn =
    AccessViolation nat
  | ProtectFailed nat
  | AttachFailed nat
  | InvalidPointer
  | TypeError string

fun message :: "exn \<Rightarrow> string" where
  "message (AccessViolation a) = ''access violation accessing '' @ ptr_toString a"
| "message (ProtectFailed a) = ''failed to change protection at '' @ ptr_toString a"
| "message (AttachFailed a) = ''unable to intercept function at '' @ ptr_toString a"
| "message InvalidPointer = ''expected a pointer''"
| "message (TypeError s) = s"

text \<open>A pointer holds 64 bits.\<close>

definition in_range64 :: "nat option \<Rightarrow> exn + nat" where
  "in_range64 r = (case r of None \<Rightarrow> Inl InvalidPointer
                    | Some n \<Rightarrow> if n < 2 ^ 64 then Inr n else Inl InvalidPointer)"

text \<open>
  Modelled from the spec: the DIT's address constructor \<^verbatim>\<open>ptr(v)\<close>, which is not part
  of the repository. The spec (3, 4.1) says an address parameter "is accepted either as a
  string (decimal or hex) or as a numeric value" and that the strings are "decimal or
  \<^verbatim>\<open>0x\<close>-prefixed hexadecimal". Anything else throws.
\<close>

fun ptr :: "jsval \<Rightarrow> exn + nat" where
  "ptr (JNum n) = (if 0 \<le> n then in_range64 (Some (nat n)) else Inl InvalidPointer)"
| "ptr (JStr s) =
     (case s of
        [] \<Rightarrow> Inl InvalidPointer
      | c # cs \<Rightarrow>
         (if take 2 s = ''0x'' then
            (if drop 2 s = [] then Inl InvalidPointer else in_range64 (read_digits 16 0 (drop 2 s)))
          else in_range64 (read_digits 10 0 s)))"
| "ptr _ = Inl InvalidPointer"

section \<open>Modules and ranges: \<^verbatim>\<open>list_ranges_by_module\<close>\<close>

text \<open>
  What \<^verbatim>\<open>Process.enumerateModules()\<close> and \<^verbatim>\<open>Process.enumerateRanges('---')\<close>
  report. A protection is the three-character string of the DIT, \<^verbatim>\<open>r-x\<close> for example.
\<close>

record module_details =
  md_name :: string
  md_base :: nat
  md_size :: nat
  md_path :: string

record range_details =
  rd_base :: nat
  rd_size :: nat
  rd_protection :: string
  rd_file :: "string option"

record process =
  modules :: "module_details list"
  ranges :: "range_details list"

definition findModuleByAddress :: "process \<Rightarrow> nat \<Rightarrow> module_details option" where
  "findModuleByAddress proc p =
     find (\<lambda>m. md_base m \<le> p \<and> p < md_base m + md_size m) (modules proc)"

text \<open>
  \<^verbatim>\<open>Process.enumerateRanges(protect)\<close> keeps the ranges that have at least the
  permissions named in \<open>protect\<close>; \<^verbatim>\<open>---\<close> keeps every range.
\<close>

definition satisfies_protection :: "string \<Rightarrow> string \<Rightarrow> bool" where
  "satisfies_protection protect p = list_all (\<lambda>c. c = CHR ''-'' \<or> c \<in> set p) protect"

definition enumerateRanges :: "process \<Rightarrow> string \<Rightarrow> range_details list" where
  "enumerateRanges proc protect =
     filter (\<lambda>r. satisfies_protection protect (rd_protection r)) (ranges proc)"

text \<open>The record each range is mapped to, and its property read for the filter.\<close>

record range_row =
  row_address :: string
  row_size :: nat
  row_protection :: string

definition range_row_of :: "range_details \<Rightarrow> range_row" where
  "range_row_of m =
     \<lparr>row_address = ptr_toString (rd_base m), row_size = rd_size m,
      row_protection = rd_protection m\<rparr>"

definition range_row_field :: "range_row \<Rightarrow> string \<Rightarrow> jsval" where
  "range_row_field r k =
     (if k = ''address'' then JStr (row_address r)
      else if k = ''size'' then JNum (int (row_size r))
      else if k = ''protection'' then JStr (row_protection r)
      else JUndefined)"

text \<open>
  The objects built by \<^verbatim>\<open>.map(m => ({...}))\<close> are fresh, hence pairwise different
  references even when their contents agree: an object is its position in the mapped
  array together with its contents.
\<close>

definition fresh_objects :: "'a list \<Rightarrow> (nat \<times> 'a) list" where
  "fresh_objects xs = zip [0..<length xs] xs"

text \<open>
  The test of the source is
  \<^verbatim>\<open>m.base >= md.base && m.base.add(m.size) < md.base.add(md.size)\<close>.
  The order of two \<^verbatim>\<open>NativePointer\<close>s is taken to be the order of the addresses; for
  addresses whose hexadecimal forms have the same number of digits it is also the order
  of their string forms.
\<close>

definition in_module :: "module_details \<Rightarrow> range_details \<Rightarrow> bool" where
  "in_module md m \<longleftrightarrow>
     rd_base m \<ge> md_base md \<and> ptr_add (rd_base m) (rd_size m) < ptr_add (md_base md) (md_size md)"

definition list_ranges_by_module ::
  "js_runtime \<Rightarrow> process \<Rightarrow> jsval \<Rightarrow> string option \<Rightarrow> jsval \<Rightarrow> exn + range_row list" where
  "list_ranges_by_module rt proc a protect flt =
     (case ptr a of
        Inl e \<Rightarrow> Inl e
      | Inr p \<Rightarrow>
         (case findModuleByAddress proc p of
            None \<Rightarrow> Inr []
          | Some md \<Rightarrow>
              Inr (map snd
                (filtered rt (\<lambda>obj. range_row_field (snd obj))
                  (fresh_objects
                    (map range_row_of
                      (filter (in_module md)
                        (enumerateRanges proc (case protect of None \<Rightarrow> ''---'' | Some s \<Rightarrow> s)))))
                  flt))))"

section \<open>The target's memory as the DIT presents it\<close>

text \<open>
  Modelled from the spec: the memory primitives of the DIT, an external capability
  (spec 6.1) that is not part of the repository. They are modelled on a
  byte-granular address space: every address is unmapped, or mapped with a protection
  \<open>(r, w, x)\<close> and a byte. A primitive throws when it touches an address it may not
  touch. Besides the protection bits, the environment can refuse an operation at an
  address for reasons the agent does not see (\<open>refused\<close>): the spec's "mutation failure
  (write fault, protect failed, attach to non-executable)" and its reads that "may
  transiently fail". A multi-byte operation that throws changes nothing.
\<close>

datatype access = AccRead | AccWrite | AccProtect | AccAttach

type_synonym perms = "bool \<times> bool \<times> bool"

record world =
  prot :: "nat \<Rightarrow> perms option"
  mem :: "nat \<Rightarrow> 8 word"
  refused :: "access \<Rightarrow> nat \<Rightarrow> bool"

definition prot_string :: "perms \<Rightarrow> string" where
  "prot_string p =
     (case p of (r, w, x) \<Rightarrow>
        [if r then CHR ''r'' else CHR ''-'', if w then CHR ''w'' else CHR ''-'',
         if x then CHR ''x'' else CHR ''-''])"

definition prot_parse :: "string \<Rightarrow> perms" where
  "prot_parse s = (CHR ''r'' \<in> set s, CHR ''w'' \<in> set s, CHR ''x'' \<in> set s)"

definition readable :: "world \<Rightarrow> nat \<Rightarrow> bool" where
  "readable w a =
     (case prot w a of None \<Rightarrow> False | Some p \<Rightarrow> fst p \<and> \<not> refused w AccRead a)"

definition writable :: "world \<Rightarrow> nat \<Rightarrow> bool" where
  "writable w a =
     (case prot w a of None \<Rightarrow> False | Some p \<Rightarrow> fst (snd p) \<and> \<not> refused w AccWrite a)"

definition protectable :: "world \<Rightarrow> nat \<Rightarrow> bool" where
  "protectable w a =
     (case prot w a of None \<Rightarrow> False | Some p \<Rightarrow> \<not> refused w AccProtect a)"

text \<open>The first address of \<open>[a, a + n)\<close> that an operation may not touch.\<close>

definition first_fault :: "(nat \<Rightarrow> bool) \<Rightarrow> nat \<Rightarrow> nat \<Rightarrow> nat option" where
  "first_fault ok a n = find (\<lambda>x. \<not> ok x) [a..<a + n]"

text \<open>
  \<^verbatim>\<open>Process.findRangeByAddress(p)\<close>: \<^verbatim>\<open>null\<close> for an unmapped address, else the
  range around it, of which the handlers read the protection string only.
\<close>

definition findRangeByAddress :: "world \<Rightarrow> nat \<Rightarrow> string option" where
  "findRangeByAddress w p = map_option prot_string (prot w p)"

definition readByteArray :: "world \<Rightarrow> nat \<Rightarrow> nat \<Rightarrow> exn + 8 word list" where
  "readByteArray w p n =
     (case first_fault (readable w) p n of
        Some x \<Rightarrow> Inl (AccessViolation x)
      | None \<Rightarrow> Inr (map (mem w) [p..<p + n]))"

definition writeByteArray :: "world \<Rightarrow> nat \<Rightarrow> 8 word list \<Rightarrow> exn + world" where
  "writeByteArray w p bs =
     (case first_fault (writable w) p (length bs) of
        Some x \<Rightarrow> Inl (AccessViolation x)
      | None \<Rightarrow>
          Inr (w\<lparr>mem := (\<lambda>x. if p \<le> x \<and> x < p + length bs then bs ! (x - p) else mem w x)\<rparr>))"

definition Memory_protect :: "world \<Rightarrow> nat \<Rightarrow> nat \<Rightarrow> string \<Rightarrow> exn + world" where
  "Memory_protect w p n s =
     (case first_fault (protectable w) p n of
        Some x \<Rightarrow> Inl (ProtectFailed x)
      | None \<Rightarrow>
          Inr (w\<lparr>prot := (\<lambda>x. if p \<le> x \<and> x < p + n then Some (prot_parse s) else prot w x)\<rparr>))"

subsection \<open>Typed reads of the DIT\<close>

text \<open>
  Integers are little-endian. A float is kept as its bit pattern: the readers pass it
  on without looking at it.
\<close>

fun le_nat :: "8 word list \<Rightarrow> nat" where
  "le_nat [] = 0"
| "le_nat (b # bs) = unat b + 256 * le_nat bs"

definition as_signed :: "nat \<Rightarrow> nat \<Rightarrow> int" where
  "as_signed bits n = (if n < 2 ^ (bits - 1) then int n else int n - 2 ^ bits)"

datatype rvalue =
    RNull
  | RNum int
  | RInt64 int
  | RUInt64 nat
  | RFloat "32 word"
  | RDouble "64 word"
  | RStr string
  | RBytes "8 word list"

definition read_as :: "world \<Rightarrow> nat \<Rightarrow> nat \<Rightarrow> (nat \<Rightarrow> 'a) \<Rightarrow> exn + 'a" where
  "read_as w p n f =
     (case readByteArray w p n of Inl e \<Rightarrow> Inl e | Inr bs \<Rightarrow> Inr (f (le_nat bs)))"

definition readS8 :: "world \<Rightarrow> nat \<Rightarrow> exn + rvalue" where
  "readS8 w p = read_as w p 1 (\<lambda>n. RNum (as_signed 8 n))"

definition readU8 :: "world \<Rightarrow> nat \<Rightarrow> exn + rvalue" where
  "readU8 w p = read_as w p 1 (\<lambda>n. RNum (int n))"

definition readS16 :: "world \<Rightarrow> nat \<Rightarrow> exn + rvalue" where
  "readS16 w p = read_as w p 2 (\<lambda>n. RNum (as_signed 16 n))"

definition readU16 :: "world \<Rightarrow> nat \<Rightarrow> exn + rvalue" where
  "readU16 w p = read_as w p 2 (\<lambda>n. RNum (int n))"

definition readS32 :: "world \<Rightarrow> nat \<Rightarrow> exn + rvalue" where
  "readS32 w p = read_as w p 4 (\<lambda>n. RNum (as_signed 32 n))"

definition readU32 :: "world \<Rightarrow> nat \<Rightarrow> exn + rvalue" where
  "readU32 w p = read_as w p 4 (\<lambda>n. RNum (int n))"

definition readS64 :: "world \<Rightarrow> nat \<Rightarrow> exn + rvalue" where
  "readS64 w p = read_as w p 8 (\<lambda>n. RInt64 (as_signed 64 n))"

definition readU64 :: "world \<Rightarrow> nat \<Rightarrow> exn + rvalue" where
  "readU64 w p = read_as w p 8 (\<lambda>n. RUInt64 n)"

definition readFloat :: "world \<Rightarrow> nat \<Rightarrow> exn + rvalue" where
  "readFloat w p = read_as w p 4 (\<lambda>n. RFloat (word_of_nat n))"

definition readDouble :: "world \<Rightarrow> nat \<Rightarrow> exn + rvalue" where
  "readDouble w p = read_as w p 8 (\<lambda>n. RDouble (word_of_nat n))"

definition readPointer :: "world \<Rightarrow> nat \<Rightarrow> exn + nat" where
  "readPointer w p = read_as w p 8 (\<lambda>n. n)"

text \<open>\<^verbatim>\<open>readCString(l)\<close>: the bytes up to the first NUL, at most \<open>l\<close> of them.\<close>

fun readCString :: "world \<Rightarrow> nat \<Rightarrow> nat \<Rightarrow> exn + string" where
  "readCString w p 0 = Inr []"
| "readCString w p (Suc k) =
     (if \<not> readable w p then Inl (AccessViolation p)
      else if mem w p = 0 then Inr []
      else (case readCString w (p + 1) k of
              Inl e \<Rightarrow> Inl e
            | Inr s \<Rightarrow> Inr (char_of (unat (mem w p)) # s)))"

section \<open>Memory readers of the RPC surface\<close>

text \<open>
  A handler returns a value (\<open>Inr\<close>) or lets an exception escape to the RPC layer
  (\<open>Inl\<close>). Each reader is \<^verbatim>\<open>a => ptr(a).readX()\<close>, with no \<^verbatim>\<open>try\<close>.
\<close>

definition reader_byte :: "world \<Rightarrow> jsval \<Rightarrow> exn + rvalue" where
  "reader_byte w a = (case ptr a of Inl e \<Rightarrow> Inl e | Inr p \<Rightarrow> readS8 w p)"

definition reader_ubyte :: "world \<Rightarrow> jsval \<Rightarrow> exn + rvalue" where
  "reader_ubyte w a = (case ptr a of Inl e \<Rightarrow> Inl e | Inr p \<Rightarrow> readU8 w p)"

definition reader_short :: "world \<Rightarrow> jsval \<Rightarrow> exn + rvalue" where
  "reader_short w a = (case ptr a of Inl e \<Rightarrow> Inl e | Inr p \<Rightarrow> readS16 w p)"

definition reader_ushort :: "world \<Rightarrow> jsval \<Rightarrow> exn + rvalue" where
  "reader_ushort w a = (case ptr a of Inl e \<Rightarrow> Inl e | Inr p \<Rightarrow> readU16 w p)"

definition reader_int :: "world \<Rightarrow> jsval \<Rightarrow> exn + rvalue" where
  "reader_int w a = (case ptr a of Inl e \<Rightarrow> Inl e | Inr p \<Rightarrow> readS32 w p)"

definition reader_uint :: "world \<Rightarrow> jsval \<Rightarrow> exn + rvalue" where
  "reader_uint w a = (case ptr a of Inl e \<Rightarrow> Inl e | Inr p \<Rightarrow> readU32 w p)"

definition reader_long :: "world \<Rightarrow> jsval \<Rightarrow> exn + rvalue" where
  "reader_long w a = (case ptr a of Inl e \<Rightarrow> Inl e | Inr p \<Rightarrow> readS64 w p)"

definition reader_ulong :: "world \<Rightarrow> jsval \<Rightarrow> exn + rvalue" where
  "reader_ulong w a = (case ptr a of Inl e \<Rightarrow> Inl e | Inr p \<Rightarrow> readU64 w p)"

definition reader_float :: "world \<Rightarrow> jsval \<Rightarrow> exn + rvalue" where
  "reader_float w a = (case ptr a of Inl e \<Rightarrow> Inl e | Inr p \<Rightarrow> readFloat w p)"

definition reader_double :: "world \<Rightarrow> jsval \<Rightarrow> exn + rvalue" where
  "reader_double w a = (case ptr a of Inl e \<Rightarrow> Inl e | Inr p \<Rightarrow> readDouble w p)"

definition reader_string :: "world \<Rightarrow> jsval \<Rightarrow> nat option \<Rightarrow> exn + rvalue" where
  "reader_string w a l =
     (case ptr a of
        Inl e \<Rightarrow> Inl e
      | Inr p \<Rightarrow>
         (case readCString w p (case l of None \<Rightarrow> 256 | Some n \<Rightarrow> n) of
            Inl e \<Rightarrow> Inl e
          | Inr s \<Rightarrow> Inr (RStr s)))"

definition reader_bytes :: "world \<Rightarrow> jsval \<Rightarrow> nat option \<Rightarrow> exn + rvalue" where
  "reader_bytes w a l =
     (case ptr a of
        Inl e \<Rightarrow> Inl e
      | Inr p \<Rightarrow>
         (case readByteArray w p (case l of None \<Rightarrow> 8 | Some n \<Rightarrow> n) of
            Inl e \<Rightarrow> Inl e
          | Inr bs \<Rightarrow> Inr (RBytes bs)))"

definition reader_pointer :: "world \<Rightarrow> jsval \<Rightarrow> exn + rvalue" where
  "reader_pointer w a =
     (case ptr a of
        Inl e \<Rightarrow> Inl e
      | Inr p \<Rightarrow>
         (case readPointer w p of Inl e \<Rightarrow> Inl e | Inr v \<Rightarrow> Inr (RStr (ptr_toString v))))"

section \<open>The patch engine: \<^verbatim>\<open>patch_bytes\<close> and \<^verbatim>\<open>restore_bytes\<close>\<close>

text \<open>
  The status envelope: \<^verbatim>\<open>{success: true, address, original, patched}\<close> or
  \<^verbatim>\<open>{success: false, error}\<close>.
\<close>

datatype patch_result =
    PatchOk jsval "8 word list" "8 word list"
  | PatchFail string

text \<open>\<^verbatim>\<open>(hasRead ? 'r' : '') + 'w' + (hasExec ? 'x' : '')\<close>\<close>

definition newProtection :: "string \<Rightarrow> string" where
  "newProtection originalProtection =
     (if js_includes originalProtection ''r'' then ''r'' else []) @ ''w'' @
     (if js_includes originalProtection ''x'' then ''x'' else [])"

text \<open>
  The body is one \<^verbatim>\<open>try\<close> block whose \<^verbatim>\<open>catch\<close> returns the failure envelope: an
  exception leaves the world as it was when it was thrown. There is no \<^verbatim>\<open>finally\<close>.
\<close>

definition patch_bytes :: "world \<Rightarrow> jsval \<Rightarrow> 8 word list \<Rightarrow> patch_result \<times> world" where
  "patch_bytes w address bytes =
     (case ptr address of
        Inl e \<Rightarrow> (PatchFail (message e), w)
      | Inr target \<Rightarrow>
         (case findRangeByAddress w target of
            None \<Rightarrow> (PatchFail ''Address not in valid range'', w)
          | Some originalProtection \<Rightarrow>
             (case readByteArray w target (length bytes) of
                Inl e \<Rightarrow> (PatchFail (message e), w)
              | Inr original \<Rightarrow>
                 (let needsProtectionChange = \<not> js_includes originalProtection ''w'' in
                  case (if needsProtectionChange
                        then Memory_protect w target (length bytes) (newProtection originalProtection)
                        else Inr w) of
                    Inl e \<Rightarrow> (PatchFail (message e), w)
                  | Inr w1 \<Rightarrow>
                     (case writeByteArray w1 target bytes of
                        Inl e \<Rightarrow> (PatchFail (message e), w1)
                      | Inr w2 \<Rightarrow>
                         (case (if needsProtectionChange
                                then Memory_protect w2 target (length bytes) originalProtection
                                else Inr w2) of
                            Inl e \<Rightarrow> (PatchFail (message e), w2)
                          | Inr w3 \<Rightarrow> (PatchOk address original bytes, w3)))))))"

definition restore_bytes :: "world \<Rightarrow> jsval \<Rightarrow> 8 word list \<Rightarrow> patch_result \<times> world" where
  "restore_bytes w address original = patch_bytes w address original"

text \<open>
  When a patch of \<open>n\<close> bytes at \<open>p\<close> goes through: the address is mapped, the bytes
  can be read, and they can be written, after the protection change if the range is
  not writable.
\<close>

definition can_patch :: "world \<Rightarrow> nat \<Rightarrow> nat \<Rightarrow> bool" where
  "can_patch w p n \<longleftrightarrow>
     (case prot w p of
        None \<Rightarrow> False
      | Some pt \<Rightarrow>
        (\<forall>x. p \<le> x \<and> x < p + n \<longrightarrow> readable w x) \<and>
        (if fst (snd pt) then (\<forall>x. p \<le> x \<and> x < p + n \<longrightarrow> writable w x)
         else (\<forall>x. p \<le> x \<and> x < p + n \<longrightarrow> protectable w x \<and> \<not> refused w AccWrite x)))"

section \<open>The scanner's values\<close>

text \<open>
  What a typed read hands to the scanner: a JavaScript number (\<open>TNaN\<close> is \<^verbatim>\<open>NaN\<close>), or
  the \<^verbatim>\<open>Int64\<close> object of \<^verbatim>\<open>readS64()\<close>. Finite numbers are reals; floats are decoded
  by the runtime.
\<close>

datatype tval = TNum real | TNaN | TInt64 int

record scan_result =
  sr_address :: nat
  sr_size :: nat
  sr_pattern :: string
  sr_currentValue :: "tval option"
  sr_originalValue :: "tval option"

record scan_response =
  resp_count :: nat
  resp_results :: "scan_result list"

record scan_runtime =
  js_parseInt :: "jsval \<Rightarrow> real option"
  js_parseFloat :: "jsval \<Rightarrow> real option"
  js_float32 :: "32 word \<Rightarrow> real option"
  js_float64 :: "64 word \<Rightarrow> real option"

section \<open>The hook manager\<close>

subsection \<open>Configuration\<close>

text \<open>
  The \<^verbatim>\<open>config\<close> object as the caller sends it: a property that is absent reads as
  \<open>JUndefined\<close>.
\<close>

record raw_config =
  cfg_onEnter :: jsval
  cfg_onLeave :: jsval
  cfg_logArgs :: jsval
  cfg_logRetval :: jsval
  cfg_argCount :: jsval
  cfg_modifyArgs :: jsval
  cfg_modifyRetval :: jsval
  cfg_backtrace :: jsval

definition empty_config :: raw_config where
  "empty_config =
     \<lparr>cfg_onEnter = JUndefined, cfg_onLeave = JUndefined, cfg_logArgs = JUndefined,
      cfg_logRetval = JUndefined, cfg_argCount = JUndefined, cfg_modifyArgs = JUndefined,
      cfg_modifyRetval = JUndefined, cfg_backtrace = JUndefined\<rparr>"

record hook_config =
  onEnter :: bool
  onLeave :: bool
  logArgs :: bool
  logRetval :: bool
  argCount :: jsval
  modifyArgs :: jsval
  modifyRetval :: jsval
  backtrace :: bool

text \<open>\<^verbatim>\<open>a || b\<close>\<close>

definition js_or :: "jsval \<Rightarrow> jsval \<Rightarrow> jsval" where
  "js_or a b = (if truthy a then a else b)"

definition hookConfig_of :: "raw_config \<Rightarrow> hook_config" where
  "hookConfig_of config =
     \<lparr>onEnter = (cfg_onEnter config \<noteq> JBool False),
      onLeave = (cfg_onLeave config = JBool True),
      logArgs = (cfg_logArgs config = JBool True),
      logRetval = (cfg_logRetval config = JBool True),
      argCount = js_or (cfg_argCount config) (JNum 4),
      modifyArgs = js_or (cfg_modifyArgs config) JNull,
      modifyRetval = js_or (cfg_modifyRetval config) JNull,
      backtrace = (cfg_backtrace config = JBool True)\<rparr>"

text \<open>\<^verbatim>\<open>hook_enable\<close> passes the stored \<^verbatim>\<open>hookConfig\<close> back in as a \<^verbatim>\<open>config\<close>.\<close>

definition as_config :: "hook_config \<Rightarrow> raw_config" where
  "as_config hc =
     \<lparr>cfg_onEnter = JBool (onEnter hc), cfg_onLeave = JBool (onLeave hc),
      cfg_logArgs = JBool (logArgs hc), cfg_logRetval = JBool (logRetval hc),
      cfg_argCount = argCount hc, cfg_modifyArgs = modifyArgs hc,
      cfg_modifyRetval = modifyRetval hc, cfg_backtrace = JBool (backtrace hc)\<rparr>"

subsection \<open>State\<close>

datatype listener = Listener nat

record hook =
  h_listener :: "listener option"
  h_config :: hook_config
  h_address :: jsval
  h_enabled :: bool
  h_target :: string

text \<open>
  The module-level variables of the agent. \<^verbatim>\<open>activeHooks\<close> is a \<^verbatim>\<open>Map\<close>, which keeps
  insertion order: an association list, updated in place or extended at the end.
\<close>

record agent =
  activeHooks :: "(string \<times> hook) list"
  hookIdCounter :: nat
  scanResults :: "scan_result list"
  scanSnapshots :: "nat \<Rightarrow> (tval \<times> tval) option"

definition initial_agent :: agent where
  "initial_agent =
     \<lparr>activeHooks = [], hookIdCounter = 0, scanResults = [], scanSnapshots = (\<lambda>a. None)\<rparr>"

text \<open>
  \<^verbatim>\<open>hookIdCounter++\<close> on a JavaScript number: exact up to \<open>2 ^ 53\<close>, where adding one
  no longer changes the value.
\<close>

definition js_incr :: "nat \<Rightarrow> nat" where
  "js_incr n = (if n < 2 ^ 53 then n + 1 else n)"

definition Interceptor_attach :: "world \<Rightarrow> nat \<Rightarrow> exn + listener" where
  "Interceptor_attach w target =
     (if refused w AccAttach target then Inl (AttachFailed target) else Inr (Listener target))"

subsection \<open>Handlers\<close>

record hook_row =
  hr_id :: string
  hr_address :: jsval
  hr_target :: string
  hr_enabled :: bool
  hr_config :: "bool \<times> bool \<times> bool \<times> bool"

datatype hook_response =
    AttachOk string jsval
  | EnableOk string
  | Ok
  | OkMessage string
  | ClearOk nat
  | Fail string
  | Listing "hook_row list"

definition hook_attach :: "world \<Rightarrow> agent \<Rightarrow> jsval \<Rightarrow> raw_config \<Rightarrow> hook_response \<times> agent" where
  "hook_attach w st address config =
     (let hid = ''hook_'' @ show_dec (hookIdCounter st);
          st1 = st\<lparr>hookIdCounter := js_incr (hookIdCounter st)\<rparr>
      in case ptr address of
           Inl e \<Rightarrow> (Fail (message e), st1)
         | Inr target \<Rightarrow>
            (case findRangeByAddress w target of
               None \<Rightarrow> (Fail ''Invalid or non-executable address'', st1)
             | Some protection \<Rightarrow>
                (if \<not> js_includes protection ''x''
                 then (Fail ''Invalid or non-executable address'', st1)
                 else
                   (let hookConfig = hookConfig_of config
                    in case Interceptor_attach w target of
                         Inl e \<Rightarrow> (Fail (message e), st1)
                       | Inr l \<Rightarrow>
                           (AttachOk hid address,
                            st1\<lparr>activeHooks :=
                              AList.update hid
                                \<lparr>h_listener = Some l, h_config = hookConfig, h_address = address,
                                 h_enabled = True, h_target = ptr_toString target\<rparr>
                                (activeHooks st1)\<rparr>)))))"

text \<open>
  \<^verbatim>\<open>hook.listener.detach()\<close> on a hook whose listener is \<^verbatim>\<open>null\<close> (a disabled hook)
  is a \<^verbatim>\<open>TypeError\<close>, which the \<^verbatim>\<open>catch\<close> turns into a failure envelope.
\<close>

definition null_listener :: exn where
  "null_listener = TypeError ''cannot read property 'detach' of null''"

definition hook_detach :: "agent \<Rightarrow> string \<Rightarrow> hook_response \<times> agent" where
  "hook_detach st hid =
     (case map_of (activeHooks st) hid of
        Some hook \<Rightarrow>
          (case h_listener hook of
             None \<Rightarrow> (Fail (message null_listener), st)
           | Some l \<Rightarrow> (Ok, st\<lparr>activeHooks := AList.delete hid (activeHooks st)\<rparr>))
      | None \<Rightarrow> (Fail ''Hook not found'', st))"

definition hook_list :: "agent \<Rightarrow> hook_response" where
  "hook_list st =
     Listing (map (\<lambda>(hid, h).
        \<lparr>hr_id = hid, hr_address = h_address h, hr_target = h_target h, hr_enabled = h_enabled h,
         hr_config = (onEnter (h_config h), onLeave (h_config h), logArgs (h_config h),
                      logRetval (h_config h))\<rparr>) (activeHooks st))"

definition hook_enable :: "world \<Rightarrow> agent \<Rightarrow> string \<Rightarrow> hook_response \<times> agent" where
  "hook_enable w st hid =
     (case map_of (activeHooks st) hid of
        None \<Rightarrow> (Fail ''Hook not found'', st)
      | Some hook \<Rightarrow>
          (if h_enabled hook then (OkMessage ''Already enabled'', st)
           else
             (case hook_attach w st (h_address hook) (as_config (h_config hook)) of
                (AttachOk newId a, st') \<Rightarrow>
                  (EnableOk newId, st'\<lparr>activeHooks := AList.delete hid (activeHooks st')\<rparr>)
              | (r, st') \<Rightarrow> (r, st'))))"

definition hook_disable :: "agent \<Rightarrow> string \<Rightarrow> hook_response \<times> agent" where
  "hook_disable st hid =
     (case map_of (activeHooks st) hid of
        None \<Rightarrow> (Fail ''Hook not found'', st)
      | Some hook \<Rightarrow>
          (if \<not> h_enabled hook then (OkMessage ''Already disabled'', st)
           else
             (case h_listener hook of
                None \<Rightarrow> (Fail (message null_listener), st)
              | Some l \<Rightarrow>
                  (Ok, st\<lparr>activeHooks :=
                         AList.update hid (hook\<lparr>h_enabled := False, h_listener := None\<rparr>)
                           (activeHooks st)\<rparr>))))"

definition hook_clear_all :: "agent \<Rightarrow> hook_response \<times> agent" where
  "hook_clear_all st =
     (ClearOk (length (activeHooks st)), st\<lparr>activeHooks := [], hookIdCounter := 0\<rparr>)"

subsection \<open>Sequences of hook calls\<close>

datatype hook_call =
    Hook_attach jsval raw_config
  | Hook_detach string
  | Hook_list
  | Hook_enable string
  | Hook_disable string
  | Hook_clear_all

fun hook_rpc :: "world \<Rightarrow> agent \<Rightarrow> hook_call \<Rightarrow> hook_response \<times> agent" where
  "hook_rpc w st (Hook_attach address config) = hook_attach w st address config"
| "hook_rpc w st (Hook_detach hid) = hook_detach st hid"
| "hook_rpc w st Hook_list = (hook_list st, st)"
| "hook_rpc w st (Hook_enable hid) = hook_enable w st hid"
| "hook_rpc w st (Hook_disable hid) = hook_disable st hid"
| "hook_rpc w st Hook_clear_all = hook_clear_all st"

text \<open>
  A session: each call arrives with the address space as it is at that moment. The
  result is the list of responses and the final state.
\<close>

fun run_calls :: "agent \<Rightarrow> (world \<times> hook_call) list \<Rightarrow> hook_response list \<times> agent" where
  "run_calls st [] = ([], st)"
| "run_calls st ((w, c) # cs) =
     (case hook_rpc w st c of
        (r, st') \<Rightarrow> (case run_calls st' cs of (rs, st'') \<Rightarrow> (r # rs, st'')))"

text \<open>
  The id a successful \<^verbatim>\<open>hook_attach\<close> returned: directly, or as the \<^verbatim>\<open>newId\<close> of the
  \<^verbatim>\<open>hook_attach\<close> that \<^verbatim>\<open>hook_enable\<close> runs.
\<close>

fun attached_ids :: "hook_response \<Rightarrow> string list" where
  "attached_ids (AttachOk hid a) = [hid]"
| "attached_ids (EnableOk hid) = [hid]"
| "attached_ids _ = []"

subsection \<open>Callbacks\<close>

text \<open>
  One invocation of the hooked function, as the DIT presents it to \<^verbatim>\<open>onEnter\<close>:
  \<open>inv_args i\<close> is the argument slot \<^verbatim>\<open>args[i]\<close>, \<open>None\<close> when reading it throws.
\<close>

record invocation =
  inv_threadId :: nat
  inv_depth :: nat
  inv_args :: "nat \<Rightarrow> nat option"
  inv_backtrace :: "(nat \<times> string option) list"

datatype event =
    HookEnter (e_id: string) (e_address: jsval) (e_threadId: nat) (e_depth: nat)
      (e_args: "string list option") (e_backtrace: "(string \<times> string option) list option")
  | HookLeave (e_id: string) (e_address: jsval) (e_threadId: nat)
      (e_retval: "string option") (e_args: "string list option")

text \<open>
  The number of rounds of \<^verbatim>\<open>for (let i = 0; i < v; i++)\<close>; a bound that is not a number
  is converted by the runtime first.
\<close>

definition loop_count :: "js_runtime \<Rightarrow> jsval \<Rightarrow> nat" where
  "loop_count rt v =
     (case v of
        JNum n \<Rightarrow> nat n
      | _ \<Rightarrow> (case js_Number rt v of None \<Rightarrow> 0 | Some r \<Rightarrow> nat \<lceil>r\<rceil>))"

definition sample_args :: "js_runtime \<Rightarrow> hook_config \<Rightarrow> (nat \<Rightarrow> nat option) \<Rightarrow> string list" where
  "sample_args rt hc args =
     map (\<lambda>i. case args i of Some v \<Rightarrow> ptr_toString v | None \<Rightarrow> ''(error)'')
       [0..<loop_count rt (argCount hc)]"

text \<open>\<^verbatim>\<open>modifyArgs.forEach((mod, idx) => ...)\<close>, from index \<open>idx\<close> on.\<close>

fun modify_args :: "jsval list \<Rightarrow> nat \<Rightarrow> (nat \<Rightarrow> nat option) \<Rightarrow> (nat \<Rightarrow> nat option)" where
  "modify_args [] idx args = args"
| "modify_args (m # ms) idx args =
     modify_args ms (Suc idx)
       (if m = JNull \<or> m = JUndefined then args
        else (case ptr m of Inl e \<Rightarrow> args | Inr v \<Rightarrow> args(idx := Some v)))"

definition modified_args :: "hook_config \<Rightarrow> (nat \<Rightarrow> nat option) \<Rightarrow> (nat \<Rightarrow> nat option)" where
  "modified_args hc args =
     (case modifyArgs hc of JArr mods \<Rightarrow> modify_args mods 0 args | _ \<Rightarrow> args)"

text \<open>
  \<^verbatim>\<open>onEnter\<close> returns what it sent, the argument slots as it leaves them, and the
  \<^verbatim>\<open>args\<close> of \<^verbatim>\<open>this.hookContext\<close>.
\<close>

definition hook_onEnter ::
  "js_runtime \<Rightarrow> string \<Rightarrow> jsval \<Rightarrow> hook_config \<Rightarrow> invocation
     \<Rightarrow> event list \<times> (nat \<Rightarrow> nat option) \<times> string list" where
  "hook_onEnter rt hid address hookConfig call =
     (let sent =
            (if onEnter hookConfig then
               [HookEnter hid address (inv_threadId call) (inv_depth call)
                  (if logArgs hookConfig then Some (sample_args rt hookConfig (inv_args call))
                   else None)
                  (if backtrace hookConfig
                   then Some (map (\<lambda>(a, sym). (ptr_toString a, sym)) (inv_backtrace call))
                   else None)]
             else []);
          args' = modified_args hookConfig (inv_args call);
          context_args = (if logArgs hookConfig then sample_args rt hookConfig args' else [])
      in (sent, args', context_args))"

text \<open>\<^verbatim>\<open>onLeave\<close> returns what it sent and the return value as it leaves it.\<close>

definition hook_onLeave ::
  "string \<Rightarrow> jsval \<Rightarrow> hook_config \<Rightarrow> invocation \<Rightarrow> string list option \<Rightarrow> nat
     \<Rightarrow> event list \<times> nat" where
  "hook_onLeave hid address hookConfig call hookContext retval =
     (let sent =
            (if onLeave hookConfig then
               [HookLeave hid address (inv_threadId call)
                  (if logRetval hookConfig then Some (ptr_toString retval) else None)
                  (if logArgs hookConfig then hookContext else None)]
             else []);
          retval' =
            (if modifyRetval hookConfig \<noteq> JNull \<and> modifyRetval hookConfig \<noteq> JUndefined
             then (case ptr (modifyRetval hookConfig) of Inl e \<Rightarrow> retval | Inr v \<Rightarrow> v)
             else retval)
      in (sent, retval'))"

text \<open>
  A call of the hooked function at a live listener: the events of \<^verbatim>\<open>onEnter\<close>, then
  those of \<^verbatim>\<open>onLeave\<close>, which sees the \<^verbatim>\<open>hookContext\<close> that \<^verbatim>\<open>onEnter\<close> stored. The
  function returns \<open>retval\<close>. A hook that is not in the table, or is disabled, has no
  listener and sends nothing.
\<close>

definition invoke_hook ::
  "js_runtime \<Rightarrow> agent \<Rightarrow> string \<Rightarrow> invocation \<Rightarrow> nat \<Rightarrow> event list" where
  "invoke_hook rt st hid call retval =
     (case map_of (activeHooks st) hid of
        None \<Rightarrow> []
      | Some hook \<Rightarrow>
          (case h_listener hook of
             None \<Rightarrow> []
           | Some l \<Rightarrow>
               (case hook_onEnter rt hid (h_address hook) (h_config hook) call of
                  (sent1, args', context_args) \<Rightarrow>
                    sent1 @ fst (hook_onLeave hid (h_address hook) (h_config hook) call
                                   (Some context_args) retval))))"

section \<open>The scanner: refinement steps\<close>

text \<open>
  The value a typed read yields, as the JavaScript value the comparison sees.
\<close>

definition as_number :: "real option \<Rightarrow> tval" where
  "as_number r = (case r of None \<Rightarrow> TNaN | Some x \<Rightarrow> TNum x)"

fun tval_of :: "scan_runtime \<Rightarrow> rvalue \<Rightarrow> tval" where
  "tval_of rt (RNum i) = TNum (of_int i)"
| "tval_of rt (RInt64 i) = TInt64 i"
| "tval_of rt (RUInt64 n) = TInt64 (int n)"
| "tval_of rt (RFloat b) = as_number (js_float32 rt b)"
| "tval_of rt (RDouble b) = as_number (js_float64 rt b)"
| "tval_of rt _ = TNaN"

text \<open>
  \<^verbatim>\<open>===\<close> on these values: two numbers are equal when they are the same number and not
  \<^verbatim>\<open>NaN\<close>; an \<^verbatim>\<open>Int64\<close> object fresh from a read is equal to nothing else. The
  relational operators convert an \<^verbatim>\<open>Int64\<close> with its \<^verbatim>\<open>valueOf()\<close>.
\<close>

fun strict_eq :: "tval \<Rightarrow> tval \<Rightarrow> bool" where
  "strict_eq (TNum a) (TNum b) = (a = b)"
| "strict_eq _ _ = False"

fun to_num :: "tval \<Rightarrow> real option" where
  "to_num (TNum a) = Some a"
| "to_num TNaN = None"
| "to_num (TInt64 i) = Some (of_int i)"

definition num_rel :: "(real \<Rightarrow> real \<Rightarrow> bool) \<Rightarrow> tval \<Rightarrow> tval \<Rightarrow> bool" where
  "num_rel cmp a b =
     (case (to_num a, to_num b) of (Some x, Some y) \<Rightarrow> cmp x y | _ \<Rightarrow> False)"

text \<open>
  The first \<^verbatim>\<open>switch\<close> of \<^verbatim>\<open>scan_next\<close>: the current and the target value, an
  exception of the read, or \<open>None\<close> for the \<^verbatim>\<open>continue\<close> of an unknown type.
\<close>

definition typed_pair ::
  "scan_runtime \<Rightarrow> (exn + rvalue) \<Rightarrow> real option \<Rightarrow> exn + tval \<times> tval" where
  "typed_pair rt r target =
     (case r of Inl e \<Rightarrow> Inl e | Inr v \<Rightarrow> Inr (tval_of rt v, as_number target))"

definition read_for_next ::
  "scan_runtime \<Rightarrow> world \<Rightarrow> string \<Rightarrow> nat \<Rightarrow> jsval \<Rightarrow> (exn + tval \<times> tval) option" where
  "read_for_next rt w type addr val =
     (if type = ''int8'' \<or> type = ''byte'' then
        Some (typed_pair rt (readS8 w addr) (js_parseInt rt val))
      else if type = ''int16'' \<or> type = ''short'' then
        Some (typed_pair rt (readS16 w addr) (js_parseInt rt val))
      else if type = ''int32'' \<or> type = ''int'' then
        Some (typed_pair rt (readS32 w addr) (js_parseInt rt val))
      else if type = ''int64'' \<or> type = ''long'' then
        Some (typed_pair rt (readS64 w addr) (js_parseInt rt val))
      else if type = ''float'' then
        Some (typed_pair rt (readFloat w addr) (js_parseFloat rt val))
      else if type = ''double'' then
        Some (typed_pair rt (readDouble w addr) (js_parseFloat rt val))
      else None)"

text \<open>The second \<^verbatim>\<open>switch\<close>: \<^verbatim>\<open>match\<close> stays \<^verbatim>\<open>false\<close> for an unknown comparison.\<close>

definition matches :: "string \<Rightarrow> string \<Rightarrow> tval \<Rightarrow> tval \<Rightarrow> bool" where
  "matches type comparison currentValue targetValue =
     (if comparison = ''eq'' then
        (if js_includes type ''float'' \<or> type = ''double''
         then num_rel (\<lambda>a b. \<bar>a - b\<bar> < 1 / 10000) currentValue targetValue
         else strict_eq currentValue targetValue)
      else if comparison = ''ne'' then \<not> strict_eq currentValue targetValue
      else if comparison = ''gt'' then num_rel (>) currentValue targetValue
      else if comparison = ''lt'' then num_rel (<) currentValue targetValue
      else if comparison = ''ge'' then num_rel (\<ge>) currentValue targetValue
      else if comparison = ''le'' then num_rel (\<le>) currentValue targetValue
      else False)"

text \<open>One round of the loop of \<^verbatim>\<open>scan_next\<close>: the entry it pushes, if any.\<close>

definition next_entry ::
  "scan_runtime \<Rightarrow> world \<Rightarrow> string \<Rightarrow> jsval \<Rightarrow> string \<Rightarrow> scan_result \<Rightarrow> scan_result option" where
  "next_entry rt w type val comparison result =
     (case read_for_next rt w type (sr_address result) val of
        None \<Rightarrow> None
      | Some (Inl e) \<Rightarrow> None
      | Some (Inr (currentValue, targetValue)) \<Rightarrow>
          (if matches type comparison currentValue targetValue
           then Some (result\<lparr>sr_currentValue := Some currentValue\<rparr>)
           else None))"

definition respond :: "agent \<Rightarrow> scan_result list \<Rightarrow> scan_response \<times> agent" where
  "respond st newResults =
     (\<lparr>resp_count = length newResults, resp_results = take 1000 newResults\<rparr>,
      st\<lparr>scanResults := newResults\<rparr>)"

definition scan_next ::
  "scan_runtime \<Rightarrow> world \<Rightarrow> agent \<Rightarrow> string \<Rightarrow> jsval \<Rightarrow> string option
     \<Rightarrow> scan_response \<times> agent" where
  "scan_next rt w st type val comparison =
     respond st
       (List.map_filter
          (next_entry rt w type val (case comparison of None \<Rightarrow> ''eq'' | Some c \<Rightarrow> c))
          (scanResults st))"

text \<open>
  The read of \<^verbatim>\<open>scan_changed\<close>, \<^verbatim>\<open>scan_unchanged\<close> and \<^verbatim>\<open>scan_snapshot\<close>: a float for
  the type \<^verbatim>\<open>float\<close>, a signed 32-bit integer for every other type.
\<close>

definition read_for_snapshot :: "scan_runtime \<Rightarrow> world \<Rightarrow> string \<Rightarrow> nat \<Rightarrow> exn + tval" where
  "read_for_snapshot rt w type addr =
     (case (if type = ''float'' then readFloat w addr else readS32 w addr) of
        Inl e \<Rightarrow> Inl e
      | Inr v \<Rightarrow> Inr (tval_of rt v))"

definition changed_entry ::
  "scan_runtime \<Rightarrow> world \<Rightarrow> agent \<Rightarrow> string \<Rightarrow> scan_result \<Rightarrow> scan_result option" where
  "changed_entry rt w st type result =
     (case scanSnapshots st (sr_address result) of
        None \<Rightarrow> None
      | Some snapshot \<Rightarrow>
          (case read_for_snapshot rt w type (sr_address result) of
             Inl e \<Rightarrow> None
           | Inr currentValue \<Rightarrow>
               (if \<not> strict_eq currentValue (fst snapshot)
                then Some (result\<lparr>sr_originalValue := Some (fst snapshot),
                                 sr_currentValue := Some currentValue\<rparr>)
                else None)))"

definition unchanged_entry ::
  "scan_runtime \<Rightarrow> world \<Rightarrow> agent \<Rightarrow> string \<Rightarrow> scan_result \<Rightarrow> scan_result option" where
  "unchanged_entry rt w st type result =
     (case scanSnapshots st (sr_address result) of
        None \<Rightarrow> None
      | Some snapshot \<Rightarrow>
          (case read_for_snapshot rt w type (sr_address result) of
             Inl e \<Rightarrow> None
           | Inr currentValue \<Rightarrow>
               (if strict_eq currentValue (fst snapshot)
                then Some (result\<lparr>sr_currentValue := Some currentValue\<rparr>)
                else None)))"

definition scan_changed ::
  "scan_runtime \<Rightarrow> world \<Rightarrow> agent \<Rightarrow> string \<Rightarrow> scan_response \<times> agent" where
  "scan_changed rt w st type =
     respond st (List.map_filter (changed_entry rt w st type) (scanResults st))"

definition scan_unchanged ::
  "scan_runtime \<Rightarrow> world \<Rightarrow> agent \<Rightarrow> string \<Rightarrow> scan_response \<times> agent" where
  "scan_unchanged rt w st type =
     respond st (List.map_filter (unchanged_entry rt w st type) (scanResults st))"

text \<open>\<^verbatim>\<open>scan_snapshot\<close> empties the map and stores the value read at every result.\<close>

fun snapshot_loop ::
  "scan_runtime \<Rightarrow> world \<Rightarrow> string \<Rightarrow> scan_result list \<Rightarrow> (nat \<Rightarrow> (tval \<times> tval) option)
     \<Rightarrow> (nat \<Rightarrow> (tval \<times> tval) option)" where
  "snapshot_loop rt w type [] m = m"
| "snapshot_loop rt w type (result # rest) m =
     snapshot_loop rt w type rest
       (case read_for_snapshot rt w type (sr_address result) of
          Inl e \<Rightarrow> m
        | Inr v \<Rightarrow> m(sr_address result \<mapsto> (v, v)))"

definition scan_snapshot :: "scan_runtime \<Rightarrow> world \<Rightarrow> agent \<Rightarrow> string \<Rightarrow> agent" where
  "scan_snapshot rt w st type =
     st\<lparr>scanSnapshots := snapshot_loop rt w type (scanResults st) (\<lambda>a. None)\<rparr>"

text \<open>The three refinement steps, as one type of calls.\<close>

datatype refinement =
    Scan_next string jsval "string option"
  | Scan_changed string
  | Scan_unchanged string

fun refine :: "scan_runtime \<Rightarrow> world \<Rightarrow> agent \<Rightarrow> refinement \<Rightarrow> scan_response \<times> agent" where
  "refine rt w st (Scan_next type val comparison) = scan_next rt w st type val comparison"
| "refine rt w st (Scan_changed type) = scan_changed rt w st type"
| "refine rt w st (Scan_unchanged type) = scan_unchanged rt w st type"

section \<open>Concrete scenarios\<close>

text \<open>
  The address space of scenario S2 of the spec: three bytes \<^verbatim>\<open>55 89 e5\<close> at
  \<^verbatim>\<open>0x1000\<close>, mapped \<^verbatim>\<open>r-x\<close>; nothing else is mapped and the environment refuses
  nothing.
\<close>

definition exec_world :: world where
  "exec_world =
     \<lparr>prot = (\<lambda>a. if 4096 \<le> a \<and> a < 4099 then Some (True, False, True) else None),
      mem = (\<lambda>a. if a = 4096 then 0x55 else if a = 4097 then 0x89 else if a = 4098 then 0xe5 else 0),
      refused = (\<lambda>k a. False)\<rparr>"

text \<open>
  The same address space in an environment that accepts the protection change and then
  faults every write.
\<close>

definition write_refusing_world :: world where
  "write_refusing_world = exec_world\<lparr>refused := (\<lambda>k a. k = AccWrite)\<rparr>"

text \<open>
  A module of two pages at \<^verbatim>\<open>0x1000\<close> whose ranges are its code page and its data
  page; the data page ends where the module ends.
\<close>

definition example_process :: process where
  "example_process =
     \<lparr>modules = [\<lparr>md_name = ''libfoo.so'', md_base = 4096, md_size = 8192,
                   md_path = ''/lib/libfoo.so''\<rparr>],
      ranges = [\<lparr>rd_base = 4096, rd_size = 4096, rd_protection = ''r-x'', rd_file = None\<rparr>,
                \<lparr>rd_base = 8192, rd_size = 4096, rd_protection = ''rw-'', rd_file = None\<rparr>]\<rparr>"


text \<open>
  A call of the hooked function with the arguments \<^verbatim>\<open>(0xdead, 0xbeef)\<close> of scenario
  S5; reading a third or later slot throws.
\<close>

definition example_call :: invocation where
  "example_call =
     \<lparr>inv_threadId = 1, inv_depth = 0,
      inv_args = (\<lambda>i. if i = 0 then Some 0xdead else if i = 1 then Some 0xbeef else None),
      inv_backtrace = []\<rparr>"

text \<open>\<^verbatim>\<open>{logArgs: true, argCount: 0}\<close>\<close>

definition zero_count_config :: raw_config where
  "zero_count_config = empty_config\<lparr>cfg_logArgs := JBool True, cfg_argCount := JNum 0\<rparr>"


text \<open>
  Scenario S4 of the spec after the mutation: the 32-bit values \<open>100\<close> at \<^verbatim>\<open>0x2000\<close>
  (it was \<open>42\<close> when the scan ran), \<open>42\<close> at \<^verbatim>\<open>0x2004\<close> and \<open>7\<close> at \<^verbatim>\<open>0x2008\<close>,
  mapped \<^verbatim>\<open>rw-\<close>. The runtime of the scenario parses unsigned decimals; it holds no
  floats.
\<close>

definition data_world :: world where
  "data_world =
     \<lparr>prot = (\<lambda>a. if 8192 \<le> a \<and> a < 8204 then Some (True, True, False) else None),
      mem = (\<lambda>a. if a = 8192 then 100 else if a = 8196 then 42 else if a = 8200 then 7 else 0),
      refused = (\<lambda>k a. False)\<rparr>"

definition decimal_runtime :: scan_runtime where
  "decimal_runtime =
     \<lparr>js_parseInt = (\<lambda>v. case v of JStr s \<Rightarrow> map_option real (read_digits 10 0 s)
                                    | JNum n \<Rightarrow> Some (of_int n) | _ \<Rightarrow> None),
      js_parseFloat = (\<lambda>v. case v of JStr s \<Rightarrow> map_option real (read_digits 10 0 s)
                                      | JNum n \<Rightarrow> Some (of_int n) | _ \<Rightarrow> None),
      js_float32 = (\<lambda>b. None),
      js_float64 = (\<lambda>b. None)\<rparr>"

definition scanned_agent :: agent where
  "scanned_agent =
     initial_agent\<lparr>scanResults :=
       [\<lparr>sr_address = 8192, sr_size = 4, sr_pattern = ''2a 00 00 00'',
         sr_currentValue = None, sr_originalValue = None\<rparr>,
        \<lparr>sr_address = 8196, sr_size = 4, sr_pattern = ''2a 00 00 00'',
         sr_currentValue = None, sr_originalValue = None\<rparr>]\<rparr>"

section \<open>Facts about strings and the filter\<close>





lemma map_snd_fresh_objects: "map snd (fresh_objects xs) = xs"
  by (simp add: fresh_objects_def)

lemma enumerateRanges_all: "enumerateRanges proc ''---'' = ranges proc"
  by (simp add: enumerateRanges_def satisfies_protection_def)

lemma list_ranges_by_module_unfiltered:
  assumes "ptr a = Inr p" and "findModuleByAddress proc p = Some md"
  shows "list_ranges_by_module rt proc a None JUndefined =
           Inr (map range_row_of (filter (in_module md) (ranges proc)))"
  using assms
  by (simp add: list_ranges_by_module_def filtered_def map_snd_fresh_objects enumerateRanges_all)

section \<open>Claim C7: the substring filter\<close>


text \<open>
  Scenario S1 of the spec: of the modules \<^verbatim>\<open>libfoo\<close>, \<^verbatim>\<open>libbar\<close>, \<^verbatim>\<open>libbaz\<close> the
  filter \<^verbatim>\<open>[["name", ":", "foo"]]\<close> keeps \<^verbatim>\<open>libfoo\<close> only, whatever the case of the
  letters.
\<close>

lemma filtered_scenario_S1:
  "filtered rt (\<lambda>x k. if k = ''name'' then JStr x else JUndefined)
     [''libfoo'', ''libbar'', ''libbaz'']
     (JArr [JArr [JStr ''name'', JStr '':'', JStr ''FOO'']]) = [''libfoo'']"
  by code_simp

section \<open>Claim C9: \<^verbatim>\<open>list_ranges_by_module\<close>\<close>

text \<open>
  C9 says that \<^verbatim>\<open>list_ranges_by_module(a)\<close> returns exactly the ranges \<open>r\<close> with
  \<open>r.base \<ge> M.base\<close> and \<open>r.base + r.size \<le> M.base + M.size\<close>, so that a range whose
  end is the module's end is included. The source compares the ends with \<^verbatim>\<open><\<close>.
  In \<open>example_process\<close> the data page \<open>[0x2000, 0x3000)\<close> lies in the module
  \<open>[0x1000, 0x3000)\<close> in the sense of the claim, and the handler leaves it out.
\<close>

theorem list_ranges_by_module_drops_final_range:
  "findModuleByAddress example_process 4096 = Some (hd (modules example_process)) \<and>
   md_base (hd (modules example_process)) \<le> rd_base (ranges example_process ! 1) \<and>
   rd_base (ranges example_process ! 1) + rd_size (ranges example_process ! 1)
     \<le> md_base (hd (modules example_process)) + md_size (hd (modules example_process)) \<and>
   list_ranges_by_module rt example_process (JStr ''0x1000'') None JUndefined =
     Inr [\<lparr>row_address = ''0x1000'', row_size = 4096, row_protection = ''r-x''\<rparr>]"
  by code_simp

section \<open>Facts about the patch engine\<close>

lemma first_fault_None: "first_fault ok a n = None \<longleftrightarrow> (\<forall>x. a \<le> x \<and> x < a + n \<longrightarrow> ok x)"
  by (auto simp: first_fault_def find_None_iff)

lemma first_fault_Some: "first_fault ok a n = Some x \<Longrightarrow> a \<le> x \<and> x < a + n \<and> \<not> ok x"
  by (auto simp: first_fault_def find_Some_iff)

lemma js_includes_single: "js_includes s [c] \<longleftrightarrow> c \<in> set s"
  by (induction s) auto

lemma prot_parse_string: "prot_parse (prot_string pt) = pt"
  by (cases pt) (auto simp: prot_parse_def prot_string_def)

lemma prot_parse_newProtection:
  "prot_parse (newProtection (prot_string pt)) = (fst pt, True, snd (snd pt))"
  by (cases pt) (auto simp: prot_parse_def prot_string_def newProtection_def js_includes_single)

lemma includes_w_prot_string: "js_includes (prot_string pt) ''w'' \<longleftrightarrow> fst (snd pt)"
  by (cases pt) (auto simp: prot_string_def js_includes_single)

lemma readByteArray_Inr:
  "readByteArray w p n = Inr bs \<longleftrightarrow>
     (\<forall>x. p \<le> x \<and> x < p + n \<longrightarrow> readable w x) \<and> bs = map (mem w) [p..<p + n]"
  by (auto simp: readByteArray_def first_fault_None split: option.splits dest: first_fault_Some)

lemma writeByteArray_Inr:
  "writeByteArray w p bs = Inr w' \<longleftrightarrow>
     (\<forall>x. p \<le> x \<and> x < p + length bs \<longrightarrow> writable w x) \<and>
     w' = w\<lparr>mem := (\<lambda>x. if p \<le> x \<and> x < p + length bs then bs ! (x - p) else mem w x)\<rparr>"
  by (auto simp: writeByteArray_def first_fault_None split: option.splits dest: first_fault_Some)

lemma Memory_protect_Inr:
  "Memory_protect w p n s = Inr w' \<longleftrightarrow>
     (\<forall>x. p \<le> x \<and> x < p + n \<longrightarrow> protectable w x) \<and>
     w' = w\<lparr>prot := (\<lambda>x. if p \<le> x \<and> x < p + n then Some (prot_parse s) else prot w x)\<rparr>"
  by (auto simp: Memory_protect_def first_fault_None split: option.splits dest: first_fault_Some)

lemma writeByteArray_ok:
  assumes "\<forall>x. p \<le> x \<and> x < p + length bs \<longrightarrow> writable w x"
  shows "\<exists>w'. writeByteArray w p bs = Inr w' \<and>
           mem w' = (\<lambda>x. if p \<le> x \<and> x < p + length bs then bs ! (x - p) else mem w x) \<and>
           prot w' = prot w \<and> refused w' = refused w"
  using assms by (simp add: writeByteArray_Inr)

lemma Memory_protect_ok:
  assumes "\<forall>x. p \<le> x \<and> x < p + n \<longrightarrow> protectable w x"
  shows "\<exists>w'. Memory_protect w p n s = Inr w' \<and>
           prot w' = (\<lambda>x. if p \<le> x \<and> x < p + n then Some (prot_parse s) else prot w x) \<and>
           mem w' = mem w \<and> refused w' = refused w"
  using assms by (simp add: Memory_protect_Inr)

lemma patch_bytes_ok_can:
  assumes "patch_bytes w a bs = (PatchOk a' orig patched, w')"
  shows "\<exists>p. ptr a = Inr p \<and> can_patch w p (length bs)"
proof -
  from assms obtain p where p: "ptr a = Inr p"
    by (auto simp: patch_bytes_def split: sum.splits)
  from assms p obtain pt where pt: "prot w p = Some pt"
    by (auto simp: patch_bytes_def findRangeByAddress_def split: sum.splits option.splits)
  from assms p pt have rd: "\<forall>x. p \<le> x \<and> x < p + length bs \<longrightarrow> readable w x"
    by (auto simp: patch_bytes_def findRangeByAddress_def readByteArray_Inr
        split: sum.splits)
  show ?thesis
  proof (cases "fst (snd pt)")
    case True
    with assms p pt have "\<forall>x. p \<le> x \<and> x < p + length bs \<longrightarrow> writable w x"
      by (auto simp: patch_bytes_def findRangeByAddress_def includes_w_prot_string
          writeByteArray_Inr split: sum.splits)
    with True p pt rd show ?thesis by (simp add: can_patch_def)
  next
    case False
    with assms p pt have "\<forall>x. p \<le> x \<and> x < p + length bs \<longrightarrow> protectable w x \<and> \<not> refused w AccWrite x"
      by (auto simp: patch_bytes_def findRangeByAddress_def includes_w_prot_string
          writeByteArray_Inr Memory_protect_Inr writable_def split: sum.splits)
    with False p pt rd show ?thesis by (simp add: can_patch_def)
  qed
qed


lemma patch_bytes_succeeds:
  assumes p: "ptr a = Inr p" and can: "can_patch w p (length bs)"
  shows "\<exists>w'. patch_bytes w a bs = (PatchOk a (map (mem w) [p..<p + length bs]) bs, w') \<and>
           mem w' = (\<lambda>x. if p \<le> x \<and> x < p + length bs then bs ! (x - p) else mem w x) \<and>
           prot w' = (\<lambda>x. if p \<le> x \<and> x < p + length bs \<and> \<not> fst (snd (the (prot w p)))
                           then prot w p else prot w x) \<and>
           refused w' = refused w"
proof -
  from can obtain pt where pt: "prot w p = Some pt"
    by (auto simp: can_patch_def split: option.splits)
  from can pt have rd: "readByteArray w p (length bs) = Inr (map (mem w) [p..<p + length bs])"
    by (simp add: can_patch_def readByteArray_Inr)
  show ?thesis
  proof (cases "fst (snd pt)")
    case True
    with can pt have wr: "\<forall>x. p \<le> x \<and> x < p + length bs \<longrightarrow> writable w x"
      by (simp add: can_patch_def)
    from writeByteArray_ok[OF wr] obtain w' where
      s2: "writeByteArray w p bs = Inr w'" and
      f: "mem w' = (\<lambda>x. if p \<le> x \<and> x < p + length bs then bs ! (x - p) else mem w x)"
         "prot w' = prot w" "refused w' = refused w"
      by blast
    from p pt rd True s2
    have "patch_bytes w a bs = (PatchOk a (map (mem w) [p..<p + length bs]) bs, w')"
      by (simp add: patch_bytes_def findRangeByAddress_def includes_w_prot_string)
    with True pt f show ?thesis by auto
  next
    case False
    with can pt
    have pr: "\<forall>x. p \<le> x \<and> x < p + length bs \<longrightarrow> protectable w x"
      and nw: "\<forall>x. p \<le> x \<and> x < p + length bs \<longrightarrow> \<not> refused w AccWrite x"
      by (simp_all add: can_patch_def)
    from Memory_protect_ok[OF pr] obtain w1 where
      s1: "Memory_protect w p (length bs) (newProtection (prot_string pt)) = Inr w1" and
      f1: "prot w1 = (\<lambda>x. if p \<le> x \<and> x < p + length bs
              then Some (prot_parse (newProtection (prot_string pt))) else prot w x)"
          "mem w1 = mem w" "refused w1 = refused w"
      by blast
    from nw have "\<forall>x. p \<le> x \<and> x < p + length bs \<longrightarrow> writable w1 x"
      by (simp add: writable_def f1 prot_parse_newProtection)
    from writeByteArray_ok[OF this] obtain w2 where
      s2: "writeByteArray w1 p bs = Inr w2" and
      f2: "mem w2 = (\<lambda>x. if p \<le> x \<and> x < p + length bs then bs ! (x - p) else mem w1 x)"
          "prot w2 = prot w1" "refused w2 = refused w1"
      by blast
    from pr have "\<forall>x. p \<le> x \<and> x < p + length bs \<longrightarrow> protectable w2 x"
      by (auto simp: protectable_def f1 f2 split: option.splits)
    from Memory_protect_ok[OF this] obtain w3 where
      s3: "Memory_protect w2 p (length bs) (prot_string pt) = Inr w3" and
      f3: "prot w3 = (\<lambda>x. if p \<le> x \<and> x < p + length bs
              then Some (prot_parse (prot_string pt)) else prot w2 x)"
          "mem w3 = mem w2" "refused w3 = refused w2"
      by blast
    from p pt rd False s1 s2 s3
    have "patch_bytes w a bs = (PatchOk a (map (mem w) [p..<p + length bs]) bs, w3)"
      by (simp add: patch_bytes_def findRangeByAddress_def includes_w_prot_string)
    moreover have "mem w3 = (\<lambda>x. if p \<le> x \<and> x < p + length bs then bs ! (x - p) else mem w x)"
      by (simp add: f3 f2 f1 fun_eq_iff)
    moreover have "prot w3 = (\<lambda>x. if p \<le> x \<and> x < p + length bs \<and> \<not> fst (snd (the (prot w p)))
                           then prot w p else prot w x)"
      using False pt by (auto simp: f3 f2 f1 prot_parse_string fun_eq_iff)
    moreover have "refused w3 = refused w"
      by (simp add: f3 f2 f1)
    ultimately show ?thesis by blast
  qed
qed

lemma patch_bytes_success_keeps_uniform_protection:
  assumes ok: "patch_bytes w a bs = (PatchOk a' original patched, w')"
    and p: "ptr a = Inr p"
    and uniform: "\<forall>x. p \<le> x \<and> x < p + length bs \<longrightarrow> prot w x = prot w p"
  shows "prot w' = prot w"
proof -
  from patch_bytes_ok_can[OF ok] p have "can_patch w p (length bs)" by simp
  from patch_bytes_succeeds[OF p this] ok uniform show ?thesis
    by (auto simp: fun_eq_iff)
qed

section \<open>Claim C3: protection after \<^verbatim>\<open>patch_bytes\<close>\<close>

text \<open>
  C3 says that on every exit path of \<^verbatim>\<open>patch_bytes\<close>, the failure of the byte write
  included, the protection of the affected range is afterwards what it was before the
  call. The source restores the protection after the write, inside the \<^verbatim>\<open>try\<close>; its
  \<^verbatim>\<open>catch\<close> does not. At \<^verbatim>\<open>0x1000\<close>, mapped \<^verbatim>\<open>r-x\<close>, with a write that faults, the
  call fails and leaves the page \<^verbatim>\<open>rwx\<close>.
\<close>

theorem patch_bytes_write_fault_leaves_protection_raised:
  "fst (patch_bytes write_refusing_world (JStr ''0x1000'') [0x90, 0x90, 0x90]) =
     PatchFail ''access violation accessing 0x1000'' \<and>
   prot write_refusing_world 4096 = Some (True, False, True) \<and>
   prot (snd (patch_bytes write_refusing_world (JStr ''0x1000'') [0x90, 0x90, 0x90])) 4096 =
     Some (True, True, True)"
  by code_simp

section \<open>Claim C4: patch and restore\<close>

text \<open>
  C4. For every successful \<^verbatim>\<open>patch_bytes(a, b)\<close> followed by
  \<^verbatim>\<open>restore_bytes(a, original)\<close>, where \<open>original\<close> is the \<^verbatim>\<open>original\<close> field the first
  call returned, the bytes at \<open>a\<close> are afterwards the bytes that were there before the
  first call. The restoring call succeeds as well, and reports the patch as what it
  overwrote. Both calls meet the same environment: what it refuses does not change
  between them.
\<close>

theorem patch_restore_roundtrip:
  assumes ok: "patch_bytes w a bs = (PatchOk a' original patched, w1)"
  shows "\<exists>p w2. ptr a = Inr p \<and>
           restore_bytes w1 a original = (PatchOk a bs original, w2) \<and>
           map (mem w2) [p..<p + length bs] = map (mem w) [p..<p + length bs]"
proof -
  from patch_bytes_ok_can[OF ok] obtain p where p: "ptr a = Inr p" and can: "can_patch w p (length bs)"
    by blast
  from can obtain pt where pt: "prot w p = Some pt"
    by (auto simp: can_patch_def split: option.splits)
  from patch_bytes_succeeds[OF p can] ok
  have orig: "original = map (mem w) [p..<p + length bs]"
    and m1: "mem w1 = (\<lambda>x. if p \<le> x \<and> x < p + length bs then bs ! (x - p) else mem w x)"
    and p1: "prot w1 = (\<lambda>x. if p \<le> x \<and> x < p + length bs \<and> \<not> fst (snd (the (prot w p)))
                           then prot w p else prot w x)"
    and r1: "refused w1 = refused w"
    by auto
  have len: "length original = length bs" by (simp add: orig)
  from can pt have rdw: "\<forall>x. p \<le> x \<and> x < p + length bs \<longrightarrow> readable w x"
    by (simp add: can_patch_def)
  have can1: "can_patch w1 p (length original)"
  proof (cases "fst (snd pt)")
    case True
    with pt p1 have "prot w1 = prot w" by (simp add: fun_eq_iff)
    with r1 have "readable w1 x = readable w x" "writable w1 x = writable w x" for x
      by (simp_all add: readable_def writable_def split: option.splits)
    with can True pt \<open>prot w1 = prot w\<close> show ?thesis
      by (simp add: can_patch_def len)
  next
    case False
    with pt p1 have pw1: "prot w1 = (\<lambda>x. if p \<le> x \<and> x < p + length bs then Some pt else prot w x)"
      by (simp add: fun_eq_iff)
    from False can pt
    have pr: "\<forall>x. p \<le> x \<and> x < p + length bs \<longrightarrow> protectable w x \<and> \<not> refused w AccWrite x"
      by (simp add: can_patch_def)
    have rd1: "readable w1 x" if x: "p \<le> x \<and> x < p + length bs" for x
    proof -
      from x have "p \<le> p \<and> p < p + length bs" by auto
      with rdw have "readable w p" by blast
      with pt have "fst pt" by (simp add: readable_def)
      moreover from rdw x have "\<not> refused w AccRead x"
        by (auto simp: readable_def split: option.splits)
      ultimately show ?thesis using x by (simp add: readable_def pw1 r1)
    qed
    have pr1: "protectable w1 x \<and> \<not> refused w1 AccWrite x" if x: "p \<le> x \<and> x < p + length bs" for x
      using pr x by (auto simp: protectable_def pw1 r1 split: option.splits)
    have "prot w1 p = Some pt" using pt by (simp add: pw1)
    with False rd1 pr1 show ?thesis
      by (simp add: can_patch_def len)
  qed
  from patch_bytes_succeeds[OF p can1] obtain w2 where
    r: "patch_bytes w1 a original = (PatchOk a (map (mem w1) [p..<p + length original]) original, w2)"
    and m2: "mem w2 = (\<lambda>x. if p \<le> x \<and> x < p + length original then original ! (x - p) else mem w1 x)"
    by blast
  have restored: "map (mem w2) [p..<p + length bs] = map (mem w) [p..<p + length bs]"
    by (auto simp: m2 len orig)
  have "map (mem w1) [p..<p + length original] = bs"
    by (auto simp: len m1 intro!: nth_equalityI)
  with p r restored show ?thesis
    by (auto simp: restore_bytes_def)
qed

text \<open>Scenario S2 of the spec: the bytes \<^verbatim>\<open>55 89 e5\<close> at \<^verbatim>\<open>0x1000\<close> come back.\<close>

theorem patch_restore_roundtrip_witness:
  "\<exists>w1 w2.
     patch_bytes exec_world (JStr ''0x1000'') [0x90, 0x90, 0x90] =
       (PatchOk (JStr ''0x1000'') [0x55, 0x89, 0xe5] [0x90, 0x90, 0x90], w1) \<and>
     restore_bytes w1 (JStr ''0x1000'') [0x55, 0x89, 0xe5] =
       (PatchOk (JStr ''0x1000'') [0x90, 0x90, 0x90] [0x55, 0x89, 0xe5], w2) \<and>
     map (mem w2) [4096..<4099] = [0x55, 0x89, 0xe5]"
proof -
  define w1 where "w1 = snd (patch_bytes exec_world (JStr ''0x1000'') [0x90, 0x90, 0x90])"
  have "fst (patch_bytes exec_world (JStr ''0x1000'') [0x90, 0x90, 0x90]) =
          PatchOk (JStr ''0x1000'') [0x55, 0x89, 0xe5] [0x90, 0x90, 0x90]"
    by code_simp
  then have ok: "patch_bytes exec_world (JStr ''0x1000'') [0x90, 0x90, 0x90] =
          (PatchOk (JStr ''0x1000'') [0x55, 0x89, 0xe5] [0x90, 0x90, 0x90], w1)"
    by (simp add: w1_def prod_eq_iff)
  have at: "ptr (JStr ''0x1000'') = Inr 4096"
    by code_simp
  have before: "map (mem exec_world) [4096..<4099] = [0x55, 0x89, 0xe5]"
    by code_simp
  from patch_restore_roundtrip[OF ok] at before obtain w2 where
    "restore_bytes w1 (JStr ''0x1000'') [0x55, 0x89, 0xe5] =
       (PatchOk (JStr ''0x1000'') [0x90, 0x90, 0x90] [0x55, 0x89, 0xe5], w2)"
    "map (mem w2) [4096..<4099] = [0x55, 0x89, 0xe5]"
    by auto
  with ok show ?thesis
    by - (rule exI[of _ w1], rule exI[of _ w2], simp)
qed

section \<open>Facts about hook ids\<close>

lemma digit_val_digit_char: "d < 16 \<Longrightarrow> digit_val (digit_char d) = Some d"
  by (auto simp: digit_val_def digit_char_def Let_def)

lemma read_digits_append:
  "read_digits b acc (xs @ ys) =
     (case read_digits b acc xs of None \<Rightarrow> None | Some r \<Rightarrow> read_digits b r ys)"
  by (induction xs arbitrary: acc) (auto split: option.splits)

lemma read_show_dec: "read_digits 10 0 (show_dec n) = Some n"
proof (induction n rule: show_dec.induct)
  case (1 n)
  show ?case
  proof (cases "n < 10")
    case True
    then show ?thesis
      by (subst show_dec.simps) (simp add: digit_val_digit_char)
  next
    case False
    with 1 have "read_digits 10 0 (show_dec (n div 10)) = Some (n div 10)" by simp
    with False show ?thesis
      by (subst show_dec.simps) (simp add: read_digits_append digit_val_digit_char)
  qed
qed

lemma show_dec_inj: "show_dec m = show_dec n \<Longrightarrow> m = n"
  by (metis read_show_dec option.inject)

lemma hook_id_inj: "''hook_'' @ show_dec m = ''hook_'' @ show_dec n \<longleftrightarrow> m = n"
  by (auto dest: show_dec_inj)

lemma hook_attach_cases:
  "hook_attach w st address config = (r, st') \<Longrightarrow>
     (\<exists>msg. r = Fail msg \<and> st' = st\<lparr>hookIdCounter := js_incr (hookIdCounter st)\<rparr>) \<or>
     (r = AttachOk (''hook_'' @ show_dec (hookIdCounter st)) address \<and>
      hookIdCounter st' = js_incr (hookIdCounter st))"
  by (auto simp: hook_attach_def Let_def split: sum.splits option.splits if_splits)

lemma hook_rpc_step:
  assumes "hook_rpc w st c = (r, st')" and "c \<noteq> Hook_clear_all"
  shows "(attached_ids r = [] \<and> (hookIdCounter st' = hookIdCounter st \<or> hookIdCounter st' = js_incr (hookIdCounter st))) \<or>
         (attached_ids r = [''hook_'' @ show_dec (hookIdCounter st)] \<and>
          hookIdCounter st' = js_incr (hookIdCounter st))"
proof (cases c)
  case (Hook_attach a cfg)
  with assms hook_attach_cases[of w st a cfg r st'] show ?thesis by auto
next
  case (Hook_detach hid)
  with assms show ?thesis
    by (auto simp: hook_detach_def split: option.splits)
next
  case Hook_list
  with assms show ?thesis by (auto simp: hook_list_def)
next
  case (Hook_enable hid)
  show ?thesis
  proof (cases "map_of (activeHooks st) hid")
    case None
    with assms Hook_enable show ?thesis by (auto simp: hook_enable_def)
  next
    case (Some hook)
    show ?thesis
    proof (cases "h_enabled hook")
      case True
      with assms Hook_enable Some show ?thesis by (auto simp: hook_enable_def)
    next
      case False
      obtain r1 st1 where a: "hook_attach w st (h_address hook) (as_config (h_config hook)) = (r1, st1)"
        by (cases "hook_attach w st (h_address hook) (as_config (h_config hook))")
      from hook_attach_cases[OF a] assms Hook_enable Some False a show ?thesis
        by (auto simp: hook_enable_def)
    qed
  qed
next
  case (Hook_disable hid)
  with assms show ?thesis
    by (auto simp: hook_disable_def split: option.splits if_splits)
next
  case Hook_clear_all
  with assms show ?thesis by simp
qed


lemma run_calls_ids:
  assumes "run_calls st calls = (rs, st')"
    and "Hook_clear_all \<notin> snd ` set calls"
    and "hookIdCounter st + length calls \<le> 2 ^ 53"
  shows "hookIdCounter st \<le> hookIdCounter st' \<and>
         hookIdCounter st' \<le> hookIdCounter st + length calls \<and>
         distinct (concat (map attached_ids rs)) \<and>
         (\<forall>hid. hid \<in> set (concat (map attached_ids rs)) \<longrightarrow>
            (\<exists>k. hookIdCounter st \<le> k \<and> k < hookIdCounter st' \<and> hid = ''hook_'' @ show_dec k))"
  using assms
proof (induction calls arbitrary: st rs st')
  case Nil
  then show ?case by simp
next
  case (Cons wc cs)
  obtain w c where wc: "wc = (w, c)" by (cases wc)
  obtain r st1 where step: "hook_rpc w st c = (r, st1)" by (cases "hook_rpc w st c")
  obtain rs1 st2 where rest: "run_calls st1 cs = (rs1, st2)" by (cases "run_calls st1 cs")
  from Cons.prems(1) wc step rest have rs: "rs = r # rs1" and st': "st' = st2" by auto
  from Cons.prems(2) wc have nc: "c \<noteq> Hook_clear_all" and ncs: "Hook_clear_all \<notin> snd ` set cs"
    by (auto simp: image_iff)
  from Cons.prems(3) have small: "hookIdCounter st < 2 ^ 53" by simp
  then have incr: "js_incr (hookIdCounter st) = hookIdCounter st + 1" by (simp add: js_incr_def)
  from hook_rpc_step[OF step nc] incr
  have cnt: "hookIdCounter st \<le> hookIdCounter st1" "hookIdCounter st1 \<le> hookIdCounter st + 1"
    by auto
  with Cons.prems(3) have "hookIdCounter st1 + length cs \<le> 2 ^ 53" by simp
  from Cons.IH[OF rest ncs this]
  have ih1: "hookIdCounter st1 \<le> hookIdCounter st2"
    and ih2: "hookIdCounter st2 \<le> hookIdCounter st1 + length cs"
    and ih3: "distinct (concat (map attached_ids rs1))"
    and ih4: "\<And>hid. hid \<in> set (concat (map attached_ids rs1)) \<Longrightarrow>
            \<exists>k. hookIdCounter st1 \<le> k \<and> k < hookIdCounter st2 \<and> hid = ''hook_'' @ show_dec k"
    by blast+
  from hook_rpc_step[OF step nc] incr
  consider (none) "attached_ids r = []"
    | (one) "attached_ids r = [''hook_'' @ show_dec (hookIdCounter st)]"
            "hookIdCounter st1 = hookIdCounter st + 1"
    by auto
  then show ?case
  proof cases
    case none
    have "\<exists>k. hookIdCounter st \<le> k \<and> k < hookIdCounter st2 \<and> hid = ''hook_'' @ show_dec k"
      if "hid \<in> set (concat (map attached_ids rs))" for hid
    proof -
      from that rs none have "hid \<in> set (concat (map attached_ids rs1))" by simp
      from ih4[OF this] obtain k where "hookIdCounter st1 \<le> k" "k < hookIdCounter st2"
        "hid = ''hook_'' @ show_dec k" by blast
      with cnt(1) have "hookIdCounter st \<le> k \<and> k < hookIdCounter st2 \<and> hid = ''hook_'' @ show_dec k"
        by simp
      then show ?thesis by blast
    qed
    moreover have "distinct (concat (map attached_ids rs))"
      using rs none ih3 by simp
    moreover have "hookIdCounter st \<le> hookIdCounter st2" using cnt ih1 by simp
    moreover have "hookIdCounter st2 \<le> hookIdCounter st + length (wc # cs)" using cnt ih2 by simp
    ultimately show ?thesis unfolding st' by blast
  next
    case one
    have fresh: "''hook_'' @ show_dec (hookIdCounter st) \<notin> set (concat (map attached_ids rs1))"
    proof
      assume "''hook_'' @ show_dec (hookIdCounter st) \<in> set (concat (map attached_ids rs1))"
      from ih4[OF this] obtain k where "hookIdCounter st1 \<le> k"
        and "''hook_'' @ show_dec (hookIdCounter st) = ''hook_'' @ show_dec k" by blast
      with one(2) show False by (auto dest: show_dec_inj)
    qed
    have "\<exists>k. hookIdCounter st \<le> k \<and> k < hookIdCounter st2 \<and> hid = ''hook_'' @ show_dec k"
      if "hid \<in> set (concat (map attached_ids rs))" for hid
    proof (cases "hid = ''hook_'' @ show_dec (hookIdCounter st)")
      case True
      with one(2) ih1 show ?thesis by (intro exI[of _ "hookIdCounter st"]) simp
    next
      case False
      with that rs one(1) have "hid \<in> set (concat (map attached_ids rs1))" by simp
      from ih4[OF this] obtain k where "hookIdCounter st1 \<le> k" "k < hookIdCounter st2"
        "hid = ''hook_'' @ show_dec k" by blast
      with cnt(1) have "hookIdCounter st \<le> k \<and> k < hookIdCounter st2 \<and> hid = ''hook_'' @ show_dec k"
        by simp
      then show ?thesis by blast
    qed
    moreover have "distinct (concat (map attached_ids rs))"
      using rs one(1) ih3 fresh by simp
    moreover have "hookIdCounter st \<le> hookIdCounter st2" using cnt ih1 by simp
    moreover have "hookIdCounter st2 \<le> hookIdCounter st + length (wc # cs)" using cnt ih2 by simp
    ultimately show ?thesis unfolding st' by blast
  qed
qed

section \<open>Claim C2: uniqueness of hook ids\<close>

text \<open>
  C2 says that no two successful \<^verbatim>\<open>hook_attach\<close> calls of one injection return the
  same id, also when \<^verbatim>\<open>hook_clear_all\<close> is called between them. \<^verbatim>\<open>hook_clear_all\<close>
  sets \<^verbatim>\<open>hookIdCounter = 0\<close>: attach, clear, attach returns \<^verbatim>\<open>hook_0\<close> twice.
\<close>

theorem hook_id_reused_after_clear_all:
  "map attached_ids (fst (run_calls initial_agent
      [(exec_world, Hook_attach (JStr ''0x1000'') empty_config),
       (exec_world, Hook_clear_all),
       (exec_world, Hook_attach (JStr ''0x1000'') empty_config)])) =
     [[''hook_0''], [], [''hook_0'']] \<and>
   \<not> distinct (concat (map attached_ids (fst (run_calls initial_agent
      [(exec_world, Hook_attach (JStr ''0x1000'') empty_config),
       (exec_world, Hook_clear_all),
       (exec_world, Hook_attach (JStr ''0x1000'') empty_config)]))))"
  by code_simp

text \<open>
  C2, amended. From every state, in every sequence of hook calls that contains no
  \<^verbatim>\<open>hook_clear_all\<close>, no two successful \<^verbatim>\<open>hook_attach\<close> calls return the same id
  (those that \<^verbatim>\<open>hook_enable\<close> makes included), as long as the counter stays in the
  range where a JavaScript number counts exactly.
\<close>

theorem hook_ids_unique_without_clear_all:
  assumes "Hook_clear_all \<notin> snd ` set calls"
    and "hookIdCounter st + length calls \<le> 2 ^ 53"
  shows "distinct (concat (map attached_ids (fst (run_calls st calls))))"
  using run_calls_ids[OF _ assms, of "fst (run_calls st calls)" "snd (run_calls st calls)"]
  by simp

theorem hook_ids_unique_without_clear_all_witness:
  "Hook_clear_all \<notin> snd ` set
      [(exec_world, Hook_attach (JStr ''0x1000'') empty_config),
       (exec_world, Hook_disable ''hook_0''),
       (exec_world, Hook_enable ''hook_0''),
       (exec_world, Hook_attach (JStr ''0x1000'') empty_config)] \<and>
   hookIdCounter initial_agent + length
      [(exec_world, Hook_attach (JStr ''0x1000'') empty_config),
       (exec_world, Hook_disable ''hook_0''),
       (exec_world, Hook_enable ''hook_0''),
       (exec_world, Hook_attach (JStr ''0x1000'') empty_config)] \<le> 2 ^ 53 \<and>
   concat (map attached_ids (fst (run_calls initial_agent
      [(exec_world, Hook_attach (JStr ''0x1000'') empty_config),
       (exec_world, Hook_disable ''hook_0''),
       (exec_world, Hook_enable ''hook_0''),
       (exec_world, Hook_attach (JStr ''0x1000'') empty_config)]))) =
     [''hook_0'', ''hook_1'', ''hook_2''] \<and>
   distinct (concat (map attached_ids (fst (run_calls initial_agent
      [(exec_world, Hook_attach (JStr ''0x1000'') empty_config),
       (exec_world, Hook_disable ''hook_0''),
       (exec_world, Hook_enable ''hook_0''),
       (exec_world, Hook_attach (JStr ''0x1000'') empty_config)]))))"
proof -
  let ?calls = "[(exec_world, Hook_attach (JStr ''0x1000'') empty_config),
       (exec_world, Hook_disable ''hook_0''),
       (exec_world, Hook_enable ''hook_0''),
       (exec_world, Hook_attach (JStr ''0x1000'') empty_config)]"
  have none: "Hook_clear_all \<notin> snd ` set ?calls"
    by simp
  have small: "hookIdCounter initial_agent + length ?calls \<le> 2 ^ 53"
    by (simp add: initial_agent_def)
  have ids: "concat (map attached_ids (fst (run_calls initial_agent ?calls))) =
     [''hook_0'', ''hook_1'', ''hook_2'']"
    by code_simp
  from hook_ids_unique_without_clear_all[OF none small] none small ids show ?thesis
    by blast
qed

section \<open>Claim C8: a failed \<^verbatim>\<open>hook_attach\<close> and the id counter\<close>

text \<open>
  C8 says that a \<^verbatim>\<open>hook_attach\<close> that fails with "Invalid or non-executable address"
  leaves the hook table and the id counter unchanged, so that the next successful call
  returns the id it would have returned anyway. The source takes the id
  (\<^verbatim>\<open>hookIdCounter++\<close>) in its first statement, before it looks at the address: after a
  failed call at the unmapped \<^verbatim>\<open>0x2000\<close> the next hook is \<^verbatim>\<open>hook_1\<close>, not
  \<^verbatim>\<open>hook_0\<close>.
\<close>

theorem hook_attach_failure_advances_counter:
  "fst (hook_attach exec_world initial_agent (JStr ''0x2000'') empty_config)
     = Fail ''Invalid or non-executable address'' \<and>
   hookIdCounter (snd (hook_attach exec_world initial_agent (JStr ''0x2000'') empty_config))
     \<noteq> hookIdCounter initial_agent \<and>
   fst (hook_attach exec_world
          (snd (hook_attach exec_world initial_agent (JStr ''0x2000'') empty_config))
          (JStr ''0x1000'') empty_config) = AttachOk ''hook_1'' (JStr ''0x1000'') \<and>
   fst (hook_attach exec_world initial_agent (JStr ''0x1000'') empty_config)
     = AttachOk ''hook_0'' (JStr ''0x1000'')"
  by code_simp

text \<open>
  C8, amended. For every \<^verbatim>\<open>hook_attach\<close> that fails with "Invalid or non-executable
  address" the hook table is unchanged and the id counter has advanced by one step: the
  next successful \<^verbatim>\<open>hook_attach\<close> returns the id after the one the failed call took.
\<close>

theorem hook_attach_invalid_consumes_id:
  assumes "hook_attach w st address config = (Fail ''Invalid or non-executable address'', st')"
  shows "activeHooks st' = activeHooks st \<and>
         hookIdCounter st' = js_incr (hookIdCounter st) \<and>
         (\<forall>w2 a2 c2 hid r st''.
            hook_attach w2 st' a2 c2 = (AttachOk hid r, st'') \<longrightarrow>
            hid = ''hook_'' @ show_dec (js_incr (hookIdCounter st)))"
proof -
  from hook_attach_cases[OF assms]
  have st': "st' = st\<lparr>hookIdCounter := js_incr (hookIdCounter st)\<rparr>" by auto
  have "hid = ''hook_'' @ show_dec (js_incr (hookIdCounter st))"
    if "hook_attach w2 st' a2 c2 = (AttachOk hid r, st'')" for w2 a2 c2 hid r st''
    using hook_attach_cases[OF that] st' by auto
  with st' show ?thesis by auto
qed

theorem hook_attach_invalid_consumes_id_witness:
  "hook_attach exec_world initial_agent (JStr ''0x2000'') empty_config =
     (Fail ''Invalid or non-executable address'',
      snd (hook_attach exec_world initial_agent (JStr ''0x2000'') empty_config)) \<and>
   activeHooks (snd (hook_attach exec_world initial_agent (JStr ''0x2000'') empty_config)) = [] \<and>
   hookIdCounter (snd (hook_attach exec_world initial_agent (JStr ''0x2000'') empty_config)) = 1"
proof -
  have "fst (hook_attach exec_world initial_agent (JStr ''0x2000'') empty_config) =
          Fail ''Invalid or non-executable address''"
    by code_simp
  then have failed: "hook_attach exec_world initial_agent (JStr ''0x2000'') empty_config =
     (Fail ''Invalid or non-executable address'',
      snd (hook_attach exec_world initial_agent (JStr ''0x2000'') empty_config))"
    by (simp add: prod_eq_iff)
  from hook_attach_invalid_consumes_id[OF failed] failed show ?thesis
    by (simp add: initial_agent_def js_incr_def)
qed

section \<open>Claim C1: the memory readers on a faulting address\<close>

lemma read_as_fault:
  "first_fault (readable w) p n = Some x \<Longrightarrow> read_as w p n f = Inl (AccessViolation x)"
  by (simp add: read_as_def readByteArray_def)

lemma readCString_fault:
  "readCString w p n = Inl e \<Longrightarrow>
     \<exists>x. e = AccessViolation x \<and> p \<le> x \<and> x < p + n \<and> \<not> readable w x"
proof (induction n arbitrary: p e)
  case 0
  then show ?case by simp
next
  case (Suc k)
  show ?case
  proof (cases "readable w p")
    case False
    with Suc.prems show ?thesis by auto
  next
    case True
    with Suc.prems have "readCString w (p + 1) k = Inl e"
      by (auto split: if_splits sum.splits)
    from Suc.IH[OF this] show ?thesis by auto
  qed
qed

text \<open>
  C1 says that a reader returns \<^verbatim>\<open>null\<close> when the underlying read faults. The readers
  have no \<^verbatim>\<open>try\<close>: at the unmapped address \<^verbatim>\<open>0x2000\<close> every one of the thirteen lets
  the access violation escape.
\<close>

theorem readers_do_not_return_null:
  "first_fault (readable exec_world) 8192 1 = Some 8192 \<and>
   reader_byte exec_world (JStr ''0x2000'') \<noteq> Inr RNull \<and>
   reader_ubyte exec_world (JStr ''0x2000'') \<noteq> Inr RNull \<and>
   reader_short exec_world (JStr ''0x2000'') \<noteq> Inr RNull \<and>
   reader_ushort exec_world (JStr ''0x2000'') \<noteq> Inr RNull \<and>
   reader_int exec_world (JStr ''0x2000'') \<noteq> Inr RNull \<and>
   reader_uint exec_world (JStr ''0x2000'') \<noteq> Inr RNull \<and>
   reader_long exec_world (JStr ''0x2000'') \<noteq> Inr RNull \<and>
   reader_ulong exec_world (JStr ''0x2000'') \<noteq> Inr RNull \<and>
   reader_float exec_world (JStr ''0x2000'') \<noteq> Inr RNull \<and>
   reader_double exec_world (JStr ''0x2000'') \<noteq> Inr RNull \<and>
   reader_string exec_world (JStr ''0x2000'') None \<noteq> Inr RNull \<and>
   reader_bytes exec_world (JStr ''0x2000'') None \<noteq> Inr RNull \<and>
   reader_pointer exec_world (JStr ''0x2000'') \<noteq> Inr RNull \<and>
   reader_byte exec_world (JStr ''0x2000'') = Inl (AccessViolation 8192)"
  by code_simp

text \<open>
  C1, amended. For every address on which the underlying memory read faults, each typed
  reader handler lets the exception of the read escape across the RPC boundary; none
  returns \<^verbatim>\<open>null\<close> in its place. A read of \<open>n\<close> bytes faults at the first address of
  the span that cannot be read; the string read faults where \<^verbatim>\<open>readCString\<close> does.
\<close>

theorem readers_raise_on_fault:
  assumes "ptr a = Inr p"
  shows
    "(\<forall>x. first_fault (readable w) p 1 = Some x \<longrightarrow>
        reader_byte w a = Inl (AccessViolation x) \<and> reader_ubyte w a = Inl (AccessViolation x)) \<and>
     (\<forall>x. first_fault (readable w) p 2 = Some x \<longrightarrow>
        reader_short w a = Inl (AccessViolation x) \<and> reader_ushort w a = Inl (AccessViolation x)) \<and>
     (\<forall>x. first_fault (readable w) p 4 = Some x \<longrightarrow>
        reader_int w a = Inl (AccessViolation x) \<and> reader_uint w a = Inl (AccessViolation x) \<and>
        reader_float w a = Inl (AccessViolation x)) \<and>
     (\<forall>x. first_fault (readable w) p 8 = Some x \<longrightarrow>
        reader_long w a = Inl (AccessViolation x) \<and> reader_ulong w a = Inl (AccessViolation x) \<and>
        reader_double w a = Inl (AccessViolation x) \<and>
        reader_pointer w a = Inl (AccessViolation x)) \<and>
     (\<forall>x. first_fault (readable w) p (case l of None \<Rightarrow> 8 | Some n \<Rightarrow> n) = Some x \<longrightarrow>
        reader_bytes w a l = Inl (AccessViolation x)) \<and>
     (\<forall>e. readCString w p (case l of None \<Rightarrow> 256 | Some n \<Rightarrow> n) = Inl e \<longrightarrow>
        reader_string w a l = Inl e)"
proof -
  have one: "reader_byte w a = Inl (AccessViolation x) \<and> reader_ubyte w a = Inl (AccessViolation x)"
    if "first_fault (readable w) p 1 = Some x" for x
    using assms that
    by (simp add: read_as_def readByteArray_def reader_byte_def reader_ubyte_def readS8_def readU8_def)
  have two: "reader_short w a = Inl (AccessViolation x) \<and> reader_ushort w a = Inl (AccessViolation x)"
    if "first_fault (readable w) p 2 = Some x" for x
    using assms that
    by (simp add: read_as_def readByteArray_def reader_short_def reader_ushort_def readS16_def readU16_def)
  have four: "reader_int w a = Inl (AccessViolation x) \<and> reader_uint w a = Inl (AccessViolation x) \<and>
        reader_float w a = Inl (AccessViolation x)"
    if "first_fault (readable w) p 4 = Some x" for x
    using assms that
    by (simp add: read_as_def readByteArray_def reader_int_def reader_uint_def reader_float_def readS32_def readU32_def
        readFloat_def)
  have eight: "reader_long w a = Inl (AccessViolation x) \<and> reader_ulong w a = Inl (AccessViolation x) \<and>
        reader_double w a = Inl (AccessViolation x) \<and> reader_pointer w a = Inl (AccessViolation x)"
    if "first_fault (readable w) p 8 = Some x" for x
    using assms that
    by (simp add: read_as_def readByteArray_def reader_long_def reader_ulong_def reader_double_def reader_pointer_def
        readS64_def readU64_def readDouble_def readPointer_def)
  have bytes: "reader_bytes w a l = Inl (AccessViolation x)"
    if "first_fault (readable w) p (case l of None \<Rightarrow> 8 | Some n \<Rightarrow> n) = Some x" for x
    using assms that by (simp add: reader_bytes_def readByteArray_def)
  have str: "reader_string w a l = Inl e"
    if "readCString w p (case l of None \<Rightarrow> 256 | Some n \<Rightarrow> n) = Inl e" for e
    using assms that by (simp add: reader_string_def)
  from one two four eight bytes str show ?thesis by blast
qed

theorem readers_raise_on_fault_witness:
  "ptr (JStr ''0x2000'') = Inr 8192 \<and>
   first_fault (readable exec_world) 8192 1 = Some 8192 \<and>
   first_fault (readable exec_world) 8192 2 = Some 8192 \<and>
   first_fault (readable exec_world) 8192 4 = Some 8192 \<and>
   first_fault (readable exec_world) 8192 8 = Some 8192 \<and>
   readCString exec_world 8192 256 = Inl (AccessViolation 8192) \<and>
   reader_byte exec_world (JStr ''0x2000'') = Inl (AccessViolation 8192) \<and>
   reader_ubyte exec_world (JStr ''0x2000'') = Inl (AccessViolation 8192) \<and>
   reader_short exec_world (JStr ''0x2000'') = Inl (AccessViolation 8192) \<and>
   reader_ushort exec_world (JStr ''0x2000'') = Inl (AccessViolation 8192) \<and>
   reader_int exec_world (JStr ''0x2000'') = Inl (AccessViolation 8192) \<and>
   reader_uint exec_world (JStr ''0x2000'') = Inl (AccessViolation 8192) \<and>
   reader_float exec_world (JStr ''0x2000'') = Inl (AccessViolation 8192) \<and>
   reader_long exec_world (JStr ''0x2000'') = Inl (AccessViolation 8192) \<and>
   reader_ulong exec_world (JStr ''0x2000'') = Inl (AccessViolation 8192) \<and>
   reader_double exec_world (JStr ''0x2000'') = Inl (AccessViolation 8192) \<and>
   reader_pointer exec_world (JStr ''0x2000'') = Inl (AccessViolation 8192) \<and>
   reader_bytes exec_world (JStr ''0x2000'') None = Inl (AccessViolation 8192) \<and>
   reader_string exec_world (JStr ''0x2000'') None = Inl (AccessViolation 8192)"
proof -
  have at: "ptr (JStr ''0x2000'') = Inr 8192"
    by code_simp
  have f1: "first_fault (readable exec_world) 8192 1 = Some 8192"
    and f2: "first_fault (readable exec_world) 8192 2 = Some 8192"
    and f4: "first_fault (readable exec_world) 8192 4 = Some 8192"
    and f8: "first_fault (readable exec_world) 8192 8 = Some 8192"
    and fs: "readCString exec_world 8192 256 = Inl (AccessViolation 8192)"
    by code_simp+
  from readers_raise_on_fault[OF at, of exec_world None] at f1 f2 f4 f8 fs show ?thesis
    by simp
qed

section \<open>Facts about the hook callbacks\<close>

lemma modify_args_below: "i < idx \<Longrightarrow> modify_args mods idx args i = args i"
  by (induction mods arbitrary: idx args) (auto split: sum.splits)

lemma modify_args_at:
  "modify_args mods idx args i =
     (if idx \<le> i \<and> i < idx + length mods then
        (let m = mods ! (i - idx)
         in if m = JNull \<or> m = JUndefined then args i
            else (case ptr m of Inl e \<Rightarrow> args i | Inr v \<Rightarrow> Some v))
      else args i)"
proof (induction mods arbitrary: idx args)
  case Nil
  then show ?case by auto
next
  case (Cons m ms)
  define args' where
    "args' = (if m = JNull \<or> m = JUndefined then args
              else (case ptr m of Inl e \<Rightarrow> args | Inr v \<Rightarrow> args(idx := Some v)))"
  have step: "modify_args (m # ms) idx args i = modify_args ms (Suc idx) args' i"
    by (simp add: args'_def)
  show ?case
  proof (cases "i \<le> idx")
    case True
    then have "modify_args ms (Suc idx) args' i = args' i"
      by (simp add: modify_args_below)
    with True step show ?thesis
      by (auto simp: args'_def Let_def split: sum.splits)
  next
    case False
    then have i: "i - idx = Suc (i - Suc idx)" "args' i = args i"
      by (auto simp: args'_def split: sum.splits)
    from False step i show ?thesis
      by (auto simp: Cons.IH [of "Suc idx" args'] Let_def split: sum.splits)
  qed
qed

lemma length_sample_args: "length (sample_args rt hc args) = loop_count rt (argCount hc)"
  by (simp add: sample_args_def)

lemma hookConfig_argCount:
  "argCount (hookConfig_of config) =
     (if truthy (cfg_argCount config) then cfg_argCount config else JNum 4)"
  by (simp add: hookConfig_of_def js_or_def)

lemma enter_args_length:
  assumes "onEnter hc" and "logArgs hc"
  shows "map (map_option length \<circ> e_args) (fst (hook_onEnter rt hid address hc call)) =
           [Some (loop_count rt (argCount hc))]"
  using assms by (simp add: hook_onEnter_def Let_def length_sample_args)

lemma hook_attach_stores_config:
  assumes "hook_attach w st address config = (AttachOk hid a, st')"
  shows "\<exists>hook l. map_of (activeHooks st') hid = Some hook \<and> h_listener hook = Some l \<and>
           h_config hook = hookConfig_of config \<and> h_address hook = address"
  using assms
  by (auto simp: hook_attach_def Let_def update_conv' split: sum.splits option.splits if_splits)

section \<open>Claim C5: the length of the logged argument array\<close>

text \<open>
  C5 says that the \<^verbatim>\<open>args\<close> of a \<^verbatim>\<open>hook_enter\<close> event has exactly \<^verbatim>\<open>argCount\<close>
  entries, for every non-negative \<^verbatim>\<open>argCount\<close> the caller passes, and four when it is
  omitted. The source defaults with \<^verbatim>\<open>config.argCount || 4\<close>, which also replaces an
  \<^verbatim>\<open>argCount\<close> of \<open>0\<close>: a hook attached with \<^verbatim>\<open>{logArgs: true, argCount: 0}\<close> logs
  four slots.
\<close>

theorem argCount_zero_logs_four_slots:
  "fst (hook_attach exec_world initial_agent (JStr ''0x1000'') zero_count_config) =
     AttachOk ''hook_0'' (JStr ''0x1000'') \<and>
   invoke_hook rt
     (snd (hook_attach exec_world initial_agent (JStr ''0x1000'') zero_count_config))
     ''hook_0'' example_call 0 =
     [HookEnter ''hook_0'' (JStr ''0x1000'') 1 0
        (Some [''0xdead'', ''0xbeef'', ''(error)'', ''(error)'']) None]"
  by code_simp

text \<open>
  Scenario S5 of the spec, for comparison: with \<^verbatim>\<open>{logArgs: true, argCount: 2}\<close> the
  event carries the two arguments.
\<close>

lemma hook_enter_scenario_S5:
  "invoke_hook rt
     (snd (hook_attach exec_world initial_agent (JStr ''0x1000'')
        (empty_config\<lparr>cfg_logArgs := JBool True, cfg_argCount := JNum 2\<rparr>)))
     ''hook_0'' example_call 0 =
     [HookEnter ''hook_0'' (JStr ''0x1000'') 1 0 (Some [''0xdead'', ''0xbeef'']) None]"
  by code_simp

section \<open>Claim C10: the arguments of \<^verbatim>\<open>hook_leave\<close>\<close>



section \<open>Claim C6: refinement shrinks the result set\<close>

lemma length_map_filter_le: "length (List.map_filter f xs) \<le> length xs"
  by (induction xs) (auto simp: map_filter_simps split: option.splits)

lemma subseq_map_filter:
  assumes "\<And>x y. f x = Some y \<Longrightarrow> g y = g x"
  shows "subseq (map g (List.map_filter f xs)) (map g xs)"
  by (induction xs) (auto simp: map_filter_simps assms split: option.splits)

lemma next_entry_address:
  "next_entry rt w type val comparison result = Some r \<Longrightarrow> sr_address r = sr_address result"
  by (auto simp: next_entry_def split: option.splits sum.splits if_splits)

lemma changed_entry_address:
  "changed_entry rt w st type result = Some r \<Longrightarrow> sr_address r = sr_address result"
  by (auto simp: changed_entry_def split: option.splits sum.splits if_splits)

lemma unchanged_entry_address:
  "unchanged_entry rt w st type result = Some r \<Longrightarrow> sr_address r = sr_address result"
  by (auto simp: unchanged_entry_def split: option.splits sum.splits if_splits)

lemma refine_results:
  "\<exists>f. (\<forall>x y. f x = Some y \<longrightarrow> sr_address y = sr_address x) \<and>
       refine rt w st step = respond st (List.map_filter f (scanResults st))"
proof (cases step)
  case (Scan_next type val comparison)
  let ?f = "next_entry rt w type val (case comparison of None \<Rightarrow> ''eq'' | Some c \<Rightarrow> c)"
  have "\<forall>x y. ?f x = Some y \<longrightarrow> sr_address y = sr_address x"
    by (blast dest: next_entry_address)
  moreover have "refine rt w st step = respond st (List.map_filter ?f (scanResults st))"
    by (simp add: Scan_next scan_next_def)
  ultimately show ?thesis by (rule_tac x = ?f in exI) (rule conjI)
next
  case (Scan_changed type)
  let ?f = "changed_entry rt w st type"
  have "\<forall>x y. ?f x = Some y \<longrightarrow> sr_address y = sr_address x"
    by (blast dest: changed_entry_address)
  moreover have "refine rt w st step = respond st (List.map_filter ?f (scanResults st))"
    by (simp add: Scan_changed scan_changed_def)
  ultimately show ?thesis by (rule_tac x = ?f in exI) (rule conjI)
next
  case (Scan_unchanged type)
  let ?f = "unchanged_entry rt w st type"
  have "\<forall>x y. ?f x = Some y \<longrightarrow> sr_address y = sr_address x"
    by (blast dest: unchanged_entry_address)
  moreover have "refine rt w st step = respond st (List.map_filter ?f (scanResults st))"
    by (simp add: Scan_unchanged scan_unchanged_def)
  ultimately show ?thesis by (rule_tac x = ?f in exI) (rule conjI)
qed

text \<open>
  C6. For every refinement step (\<^verbatim>\<open>scan_next\<close>, \<^verbatim>\<open>scan_changed\<close>,
  \<^verbatim>\<open>scan_unchanged\<close>) and every prior state, the returned \<^verbatim>\<open>count\<close> is the size of the
  new result set and at most the size of the result set before the step, and the
  addresses of the new result set are among those of the prior one; they are even a
  subsequence of them.
\<close>

theorem refinement_shrinks:
  "resp_count (fst (refine rt w st step)) = length (scanResults (snd (refine rt w st step))) \<and>
   resp_count (fst (refine rt w st step)) \<le> length (scanResults st) \<and>
   set (map sr_address (scanResults (snd (refine rt w st step))))
     \<subseteq> set (map sr_address (scanResults st)) \<and>
   subseq (map sr_address (scanResults (snd (refine rt w st step))))
     (map sr_address (scanResults st))"
proof -
  from refine_results[of rt w st step] obtain f where
    addr: "\<And>x y. f x = Some y \<Longrightarrow> sr_address y = sr_address x" and
    r: "refine rt w st step = respond st (List.map_filter f (scanResults st))"
    by blast
  have sub: "subseq (map sr_address (List.map_filter f (scanResults st)))
               (map sr_address (scanResults st))"
    by (rule subseq_map_filter) (rule addr)
  have "set xs \<subseteq> set ys" if "subseq xs ys" for xs ys :: "nat list"
    using list_emb_set[OF that] by auto
  from this[OF sub]
  have "set (map sr_address (List.map_filter f (scanResults st)))
               \<subseteq> set (map sr_address (scanResults st))" .
  with sub length_map_filter_le[of f "scanResults st"] show ?thesis
    by (simp add: r respond_def)
qed

text \<open>
  Scenario S4 of the spec: after \<^verbatim>\<open>A\<close> was set to \<open>100\<close>,
  \<^verbatim>\<open>scan_next("int32", "42", "eq")\<close> keeps \<^verbatim>\<open>B\<close> only.
\<close>

lemma scan_next_scenario_S4:
  "resp_count (fst (scan_next decimal_runtime data_world scanned_agent ''int32'' (JStr ''42'')
      (Some ''eq''))) = 1 \<and>
   map sr_address (scanResults (snd (scan_next decimal_runtime data_world scanned_agent ''int32''
      (JStr ''42'') (Some ''eq'')))) = [8196]"
  by code_simp

end
